theory Spec2Isabelle
  imports Complex_Main "HOL-Library.AList"
begin

section \<open>Numbers, vectors and the scene graph objects\<close>

text \<open>
  The program is \<^verbatim>\<open>src/index.js\<close>: one module with global mutable state and two
  functions, \<^verbatim>\<open>setupScene\<close> and \<^verbatim>\<open>onFrame\<close>, handed to the render loop.

  JavaScript numbers are IEEE 754 binary64 numbers: every arithmetic operation returns the
  exact result rounded to the nearest binary64 number, and of two nearest ones the one with
  the even significand. \<open>fl\<close> is that rounding, on \<^typ>\<open>real\<close>: a number with exponent
  \<open>e = \<lfloor>log\<^sub>2 \<bar>x\<bar>\<rfloor>\<close> is rounded to a multiple of \<open>2\<^sup>e\<^sup>-\<^sup>5\<^sup>2\<close>, and to a multiple of \<open>2\<^sup>-\<^sup>1\<^sup>0\<^sup>7\<^sup>4\<close> in
  the subnormal range. A decimal literal of the source is the rounding of its value.

  The two tilt filters of \<^verbatim>\<open>onFrame\<close> (lines 171 to 244) are written with \<open>fl\<close> around every
  operation, in the order in which JavaScript evaluates them: what they promise about
  bounds is decided by single roundings. The kinematics of the bullets (\<open>add\<close>,
  \<open>multiplyScalar\<close>, \<open>applyQuaternion\<close>, \<open>distanceTo\<close>) are in exact arithmetic, and the score, which
  only ever holds integers, is an \<^typ>\<open>int\<close>. Overflow to \<^verbatim>\<open>Infinity\<close>, \<^verbatim>\<open>NaN\<close> and the sign of
  zero are outside the model.

  The operations of \<^verbatim>\<open>THREE.Vector3\<close>, \<^verbatim>\<open>THREE.MathUtils\<close> and \<^verbatim>\<open>THREE.Object3D\<close> that the module
  calls are written out as the three.js library defines them. \<^verbatim>\<open>clone()\<close> is the identity on
  values.
\<close>

definition roundEven :: "real \<Rightarrow> int" where
  "roundEven r =
     (let n = \<lfloor>r\<rfloor>; f = r - of_int n
      in if f < 1 / 2 then n else if 1 / 2 < f then n + 1 else if even n then n else n + 1)"

definition ulpExponent :: "real \<Rightarrow> int" where
  "ulpExponent x = max (\<lfloor>log 2 \<bar>x\<bar>\<rfloor> - 52) (- 1074)"

definition ulp :: "real \<Rightarrow> real" where
  "ulp x = 2 powr of_int (ulpExponent x)"

definition fl :: "real \<Rightarrow> real" where
  "fl x = (if x = 0 then 0 else of_int (roundEven (x / ulp x)) * ulp x)"

text \<open>\<^verbatim>\<open>Math.PI\<close>.\<close>

definition mathPI :: real where
  "mathPI = fl pi"

datatype Vector3 = Vector3 (vx: real) (vy: real) (vz: real)

datatype Quaternion = Quaternion (qx: real) (qy: real) (qz: real) (qw: real)

text \<open>
  \<^verbatim>\<open>sub\<close> and \<^verbatim>\<open>divideScalar\<close> are called by the tilt filters only. \<^verbatim>\<open>divideScalar(s)\<close> is
  \<^verbatim>\<open>multiplyScalar(1 / s)\<close> in three.js: one division, then a product for each component.
\<close>

definition sub :: "Vector3 \<Rightarrow> Vector3 \<Rightarrow> Vector3" where
  "sub a b = Vector3 (fl (vx a - vx b)) (fl (vy a - vy b)) (fl (vz a - vz b))"

definition add :: "Vector3 \<Rightarrow> Vector3 \<Rightarrow> Vector3" where
  "add a b = Vector3 (vx a + vx b) (vy a + vy b) (vz a + vz b)"

definition multiplyScalar :: "Vector3 \<Rightarrow> real \<Rightarrow> Vector3" where
  "multiplyScalar a s = Vector3 (vx a * s) (vy a * s) (vz a * s)"

definition divideScalar :: "Vector3 \<Rightarrow> real \<Rightarrow> Vector3" where
  "divideScalar a s =
     (let r = fl (1 / s) in Vector3 (fl (vx a * r)) (fl (vy a * r)) (fl (vz a * r)))"

definition distanceToSquared :: "Vector3 \<Rightarrow> Vector3 \<Rightarrow> real" where
  "distanceToSquared a b =
     (let dx = vx a - vx b; dy = vy a - vy b; dz = vz a - vz b
      in dx * dx + dy * dy + dz * dz)"

definition distanceTo :: "Vector3 \<Rightarrow> Vector3 \<Rightarrow> real" where
  "distanceTo a b = sqrt (distanceToSquared a b)"

definition applyQuaternion :: "Vector3 \<Rightarrow> Quaternion \<Rightarrow> Vector3" where
  "applyQuaternion v q =
     (let tx = 2 * (qy q * vz v - qz q * vy v);
          ty = 2 * (qz q * vx v - qx q * vz v);
          tz = 2 * (qx q * vy v - qy q * vx v)
      in Vector3 (vx v + qw q * tx + qy q * tz - qz q * ty)
                 (vy v + qw q * ty + qz q * tx - qx q * tz)
                 (vz v + qw q * tz + qx q * ty - qy q * tx))"

definition clamp :: "real \<Rightarrow> real \<Rightarrow> real \<Rightarrow> real" where
  "clamp value lo hi = max lo (min hi value)"

text \<open>
  An \<^verbatim>\<open>Object3D\<close> with the properties the module reads or writes. A bullet is an
  \<^verbatim>\<open>Object3D\<close> whose \<^verbatim>\<open>userData\<close> holds \<^verbatim>\<open>velocity\<close> and \<^verbatim>\<open>timeToLive\<close> (lines 266 to 269).
\<close>

record object3D =
  uuid :: string
  position :: Vector3
  quaternion :: Quaternion
  scale :: Vector3
  visible :: bool

record bullet = object3D +
  velocity :: Vector3
  timeToLive :: real

text \<open>
  The children of the scene that the module adds and removes: the space station, the
  targets (by their index in \<^verbatim>\<open>targets\<close>), the score text and the bullets (by uuid).
  \<^verbatim>\<open>Object3D.add\<close> detaches the object from its parent and pushes it; \<^verbatim>\<open>Object3D.remove\<close>
  splices the object out where \<^verbatim>\<open>indexOf\<close> finds it.
\<close>

datatype child = Station | TargetChild nat | ScoreText | BulletChild string

definition sceneAdd :: "child \<Rightarrow> child list \<Rightarrow> child list" where
  "sceneAdd c children = remove1 c children @ [c]"

definition sceneRemove :: "child \<Rightarrow> child list \<Rightarrow> child list" where
  "sceneRemove c children = remove1 c children"

section \<open>Module state\<close>

text \<open>Lines 17 to 19.\<close>

definition forwardVector :: Vector3 where
  "forwardVector = Vector3 0 0 (-1)"

definition bulletSpeed :: real where
  "bulletSpeed = 10"

definition bulletTimeToLive :: real where
  "bulletTimeToLive = 1"

text \<open>
  \<^verbatim>\<open>blasterInertia\<close> (lines 25 to 32) and \<^verbatim>\<open>liquidSphereInertia\<close> (lines 37 to 49). The second
  object has every property of the first and five more, so it is the record extension.
\<close>

record inertiaState =
  prevPos :: Vector3
  tiltY :: real
  tiltZ :: real
  sensitivity :: real
  damping :: real
  maxTilt :: real

record liquidInertiaState = inertiaState +
  tiltX :: real
  velX :: real
  velY :: real
  velZ :: real
  spring :: real

record liquidMesh =
  rotation :: Vector3
  inertia :: real

text \<open>
  What happens outside the module is kept as a log: the haptic pulse and the two sounds.
  A gsap tween is remembered from \<^verbatim>\<open>gsap.to\<close> until the library completes it, a timer from
  \<^verbatim>\<open>setTimeout\<close> until it fires; both name their target by its index in \<^verbatim>\<open>targets\<close>.
\<close>

datatype effect = HapticPulse | LaserSound | ScoreSound

datatype tweenKind = Shrink | Grow

record world =
  bullets :: "(string \<times> bullet) list"
  targets :: "object3D list"
  scene :: "child list"
  blasterInertia :: inertiaState
  liquidSphereInertia :: liquidInertiaState
  liquidMeshes :: "liquidMesh list"
  blasterRotation :: Vector3
  blasterAttached :: bool
  controllerMeshVisible :: bool
  score :: int
  scoreText :: string
  tweens :: "(nat \<times> tweenKind) list"
  timeouts :: "nat list"
  effects :: "effect list"

definition initialWorld :: world where
  "initialWorld =
     \<lparr>bullets = [], targets = [], scene = [],
      blasterInertia = \<lparr>prevPos = Vector3 0 0 0, tiltY = 0, tiltZ = 0,
        sensitivity = 5 / 2, damping = 8, maxTilt = fl (12 / 100)\<rparr>,
      liquidSphereInertia = \<lparr>prevPos = Vector3 0 0 0, tiltY = 0, tiltZ = 0,
        sensitivity = 3, damping = 4, maxTilt = fl (18 / 100),
        tiltX = 0, velX = 0, velY = 0, velZ = 0, spring = 12\<rparr>,
      liquidMeshes = [], blasterRotation = Vector3 0 0 0,
      blasterAttached = False, controllerMeshVisible = True,
      score = 0, scoreText = [], tweens = [], timeouts = [], effects = []\<rparr>"

section \<open>The score display (lines 62 to 67)\<close>

text \<open>
  \<^verbatim>\<open>Number.prototype.toString\<close> on an integer and \<^verbatim>\<open>String.prototype.padStart\<close> with a
  one-character filler.
\<close>

definition digitChar :: "nat \<Rightarrow> char" where
  "digitChar d = ''0123456789'' ! d"

fun natToString :: "nat \<Rightarrow> string" where
  "natToString n =
     (if n < 10 then [digitChar n] else natToString (n div 10) @ [digitChar (n mod 10)])"

declare natToString.simps [simp del]

definition toString :: "int \<Rightarrow> string" where
  "toString n = (if n < 0 then CHR ''-'' # natToString (nat (- n)) else natToString (nat n))"

definition padStart :: "nat \<Rightarrow> char \<Rightarrow> string \<Rightarrow> string" where
  "padStart targetLength c s = replicate (targetLength - length s) c @ s"

definition updateScoreDisplay :: "world \<Rightarrow> world" where
  "updateScoreDisplay st =
     (let clampedScore = max 0 (min 9999 (score st));
          displayScore = padStart 4 (CHR ''0'') (toString clampedScore)
      in st\<lparr>scoreText := displayScore\<rparr>)"

section \<open>What a frame receives\<close>

text \<open>
  \<^verbatim>\<open>onFrame(delta, time, {scene, camera, renderer, player, controllers})\<close>. Of the third
  argument the module reads the camera's world position and \<^verbatim>\<open>controllers.right\<close>, which may
  be undefined. Of the right controller it reads the world position of its ray space,
  whether the trigger was clicked, and the haptic actuator, which may be missing (the call
  at line 247 then throws). \<^verbatim>\<open>getObjectByName('bullet')\<close> finds the bullet template once the
  blaster model is loaded: the template itself (what \<^verbatim>\<open>clone()\<close> copies), its world position
  and quaternion, and the uuid that \<^verbatim>\<open>clone()\<close> draws for the copy.

  \<^verbatim>\<open>gsap.ticker.tick\<close> is the library's: what it does to the running tweens in this tick is
  part of what the frame receives.
\<close>

record bulletTemplate =
  template :: object3D
  worldPosition :: Vector3
  worldQuaternion :: Quaternion
  cloneUuid :: string

record controller =
  raySpacePosition :: Vector3
  triggerClick :: bool
  hapticActuator :: bool
  bulletPrototype :: "bulletTemplate option"

datatype tickerEvent = TweenProgress nat Vector3 | TweenComplete nat tweenKind

record frameEnv =
  cameraPosition :: Vector3
  controllersRight :: "controller option"
  tickerEvents :: "tickerEvent list"

section \<open>The liquid tilt: a spring (lines 171 to 212)\<close>

definition liquidTargets :: "real \<Rightarrow> Vector3 \<Rightarrow> liquidInertiaState \<Rightarrow> real \<times> real \<times> real" where
  "liquidTargets delta refPos li =
     (let refVelocity = divideScalar (sub refPos (prevPos li)) (max delta (fl (1 / 1000)));
          targetX = clamp (fl (fl (- vx refVelocity * sensitivity li) * fl (8 / 10)))
                      (- maxTilt li) (maxTilt li);
          targetY = clamp (fl (- vx refVelocity * sensitivity li)) (- maxTilt li) (maxTilt li);
          targetZ = clamp (fl (fl (vz refVelocity * sensitivity li) * (1 / 2)))
                      (- maxTilt li) (maxTilt li)
      in (targetX, targetY, targetZ))"

definition updateLiquidInertia :: "real \<Rightarrow> Vector3 \<Rightarrow> liquidInertiaState \<Rightarrow> liquidInertiaState" where
  "updateLiquidInertia delta refPos li =
     (case liquidTargets delta refPos li of (targetX, targetY, targetZ) \<Rightarrow>
        let d = fl (damping li * delta);
            s = fl (spring li * delta);
            velX' = fl (velX li + fl (fl (fl (targetX - tiltX li) * s) - fl (velX li * d)));
            velY' = fl (velY li + fl (fl (fl (targetY - tiltY li) * s) - fl (velY li * d)));
            velZ' = fl (velZ li + fl (fl (fl (targetZ - tiltZ li) * s) - fl (velZ li * d)))
        in li\<lparr>prevPos := refPos,
              velX := velX', velY := velY', velZ := velZ',
              tiltX := fl (tiltX li + fl (velX' * delta)),
              tiltY := fl (tiltY li + fl (velY' * delta)),
              tiltZ := fl (tiltZ li + fl (velZ' * delta))\<rparr>)"

definition rotateLiquidMesh :: "liquidInertiaState \<Rightarrow> liquidMesh \<Rightarrow> liquidMesh" where
  "rotateLiquidMesh li m =
     m\<lparr>rotation := Vector3 (fl (- mathPI / 2 + fl (tiltZ li * inertia m)))
                       (fl (tiltX li * inertia m)) (fl (tiltY li * inertia m))\<rparr>"

definition updateLiquid :: "real \<Rightarrow> frameEnv \<Rightarrow> world \<Rightarrow> world" where
  "updateLiquid delta env st =
     (let refPos = (case controllersRight env of
                      Some c \<Rightarrow> raySpacePosition c
                    | None \<Rightarrow> cameraPosition env);
          li = updateLiquidInertia delta refPos (liquidSphereInertia st)
      in st\<lparr>liquidSphereInertia := li,
            liquidMeshes := map (rotateLiquidMesh li) (liquidMeshes st)\<rparr>)"

section \<open>The blaster tilt: a low-pass blend (lines 214 to 244)\<close>

definition attachBlaster :: "controller \<Rightarrow> world \<Rightarrow> world" where
  "attachBlaster c st =
     (if \<not> blasterAttached st then
        st\<lparr>blasterAttached := True,
           controllerMeshVisible := False,
           blasterInertia := (blasterInertia st)\<lparr>prevPos := raySpacePosition c\<rparr>,
           liquidSphereInertia := (liquidSphereInertia st)\<lparr>prevPos := raySpacePosition c\<rparr>\<rparr>
      else st)"

definition blasterTargets :: "real \<Rightarrow> Vector3 \<Rightarrow> inertiaState \<Rightarrow> real \<times> real" where
  "blasterTargets delta currentPos bi =
     (let velocity = divideScalar (sub currentPos (prevPos bi)) (max delta (fl (1 / 1000)));
          targetTiltY = clamp (fl (- vx velocity * sensitivity bi)) (- maxTilt bi) (maxTilt bi);
          targetTiltZ = clamp (fl (fl (vz velocity * sensitivity bi) * (1 / 2)))
                          (- maxTilt bi) (maxTilt bi)
      in (targetTiltY, targetTiltZ))"

definition updateBlasterInertia :: "real \<Rightarrow> Vector3 \<Rightarrow> inertiaState \<Rightarrow> inertiaState" where
  "updateBlasterInertia delta currentPos bi =
     (case blasterTargets delta currentPos bi of (targetTiltY, targetTiltZ) \<Rightarrow>
        bi\<lparr>prevPos := currentPos,
           tiltY := fl (tiltY bi
                        + fl (fl (targetTiltY - tiltY bi) * min 1 (fl (damping bi * delta)))),
           tiltZ := fl (tiltZ bi
                        + fl (fl (targetTiltZ - tiltZ bi) * min 1 (fl (damping bi * delta))))\<rparr>)"

definition updateBlaster :: "real \<Rightarrow> controller \<Rightarrow> world \<Rightarrow> world" where
  "updateBlaster delta c st =
     (let bi = updateBlasterInertia delta (raySpacePosition c) (blasterInertia st)
      in st\<lparr>blasterInertia := bi,
            blasterRotation := Vector3 (vx (blasterRotation st)) (tiltY bi) (tiltZ bi)\<rparr>)"

section \<open>The trigger: haptics, sound and the new bullet (lines 245 to 272)\<close>

text \<open>
  The one call of the module that can throw is \<^verbatim>\<open>gamepad.getHapticActuator(0).pulse\<close>, when
  the gamepad has no actuator; the \<^verbatim>\<open>try\<close> around it discards the exception. Exceptions are
  values: a stage returns \<open>Inl\<close> of the error or \<open>Inr\<close> of the new state.
\<close>

datatype error = NoHapticActuator

definition hapticPulse :: "controller \<Rightarrow> world \<Rightarrow> error + world" where
  "hapticPulse c st =
     (if hapticActuator c then Inr (st\<lparr>effects := effects st @ [HapticPulse]\<rparr>)
      else Inl NoHapticActuator)"

definition spawnBullet :: "bulletTemplate \<Rightarrow> world \<Rightarrow> world" where
  "spawnBullet p st =
     (let directionVector = applyQuaternion forwardVector (worldQuaternion p);
          bullet = \<lparr>uuid = cloneUuid p, position = worldPosition p,
                    quaternion = worldQuaternion p, scale = scale (template p),
                    visible = visible (template p),
                    velocity = multiplyScalar directionVector bulletSpeed,
                    timeToLive = bulletTimeToLive\<rparr>
      in st\<lparr>scene := sceneAdd (BulletChild (uuid bullet)) (scene st),
            bullets := AList.update (uuid bullet) bullet (bullets st)\<rparr>)"

definition onTrigger :: "controller \<Rightarrow> world \<Rightarrow> error + world" where
  "onTrigger c st =
     (let st1 = (case hapticPulse c st of Inr s \<Rightarrow> s | Inl e \<Rightarrow> st);
          st2 = st1\<lparr>effects := effects st1 @ [LaserSound]\<rparr>
      in case bulletPrototype c of
           Some p \<Rightarrow> Inr (spawnBullet p st2)
         | None \<Rightarrow> Inr st2)"

definition handleController :: "real \<Rightarrow> frameEnv \<Rightarrow> world \<Rightarrow> error + world" where
  "handleController delta env st =
     (case controllersRight env of
        None \<Rightarrow> Inr st
      | Some c \<Rightarrow>
          let st1 = updateBlaster delta c (attachBlaster c st)
          in if triggerClick c then onTrigger c st1 else Inr st1)"

section \<open>The bullets (lines 275 to 322)\<close>

text \<open>
  \<^verbatim>\<open>bullets\<close> is an object keyed by uuid: an association list in insertion order, which is the
  order of \<^verbatim>\<open>Object.values\<close>. The loop runs over the values as they are when it starts. A
  bullet is an object behind a reference, so writing its position and time to live changes
  the entry of the registry that holds it.

  The body of the inner \<^verbatim>\<open>forEach\<close> over the visible targets is \<open>hitTarget\<close>; the array it runs
  over is filtered before the first call, the position of a target is read in the call.
\<close>

definition hitTarget :: "bullet \<Rightarrow> nat \<Rightarrow> world \<Rightarrow> world" where
  "hitTarget bullet i st =
     (let distance = distanceTo (position (targets st ! i)) (position bullet)
      in if distance < 1 then
           let st1 = st\<lparr>bullets := AList.delete (uuid bullet) (bullets st),
                        scene := sceneRemove (BulletChild (uuid bullet)) (scene st),
                        tweens := tweens st @ [(i, Shrink)],
                        score := score st + 10\<rparr>;
               st2 = updateScoreDisplay st1
           in st2\<lparr>effects := effects st2 @ [ScoreSound]\<rparr>
         else st)"

definition visibleTargets :: "world \<Rightarrow> nat list" where
  "visibleTargets st = filter (\<lambda>i. visible (targets st ! i)) [0..<length (targets st)]"

definition stepBullet :: "real \<Rightarrow> bullet \<Rightarrow> world \<Rightarrow> world" where
  "stepBullet delta bullet st =
     (if timeToLive bullet < 0 then
        st\<lparr>bullets := AList.delete (uuid bullet) (bullets st),
           scene := sceneRemove (BulletChild (uuid bullet)) (scene st)\<rparr>
      else
        let deltaVec = multiplyScalar (velocity bullet) delta;
            bullet' = bullet\<lparr>position := add (position bullet) deltaVec,
                             timeToLive := timeToLive bullet - delta\<rparr>;
            st1 = st\<lparr>bullets := AList.map_entry (uuid bullet) (\<lambda>_. bullet') (bullets st)\<rparr>
        in foldl (\<lambda>s i. hitTarget bullet' i s) st1 (visibleTargets st1))"

definition stepBullets :: "real \<Rightarrow> world \<Rightarrow> world" where
  "stepBullets delta st = foldl (\<lambda>s bullet. stepBullet delta bullet s) st (map snd (bullets st))"

section \<open>Tweens and timers (lines 293 to 314 and 323)\<close>

text \<open>
  \<^verbatim>\<open>gsap.to(target.scale, ...)\<close> hands the scale of a target to the library. In a tick the
  library writes the scale of a target that has a running tween, or completes a tween: the
  scale gets its end value and a shrink tween's \<^verbatim>\<open>onComplete\<close> runs, which hides the target
  and starts the timer. When the timer fires, the target is shown at a new place and the
  grow tween starts; the two numbers are what \<^verbatim>\<open>Math.random\<close> returned.
\<close>

definition onComplete :: "nat \<Rightarrow> world \<Rightarrow> world" where
  "onComplete i st =
     st\<lparr>targets := (targets st)[i := (targets st ! i)\<lparr>visible := False\<rparr>],
        timeouts := timeouts st @ [i]\<rparr>"

definition endScale :: "tweenKind \<Rightarrow> Vector3" where
  "endScale k = (case k of Shrink \<Rightarrow> Vector3 0 0 0 | Grow \<Rightarrow> Vector3 1 1 1)"

fun tickerStep :: "tickerEvent \<Rightarrow> world \<Rightarrow> world" where
  "tickerStep (TweenProgress i v) st =
     (if i \<in> fst ` set (tweens st) \<and> i < length (targets st)
      then st\<lparr>targets := (targets st)[i := (targets st ! i)\<lparr>scale := v\<rparr>]\<rparr>
      else st)"
| "tickerStep (TweenComplete i k) st =
     (if (i, k) \<in> set (tweens st) \<and> i < length (targets st) then
        let st1 = st\<lparr>tweens := remove1 (i, k) (tweens st),
                     targets := (targets st)[i := (targets st ! i)\<lparr>scale := endScale k\<rparr>]\<rparr>
        in if k = Shrink then onComplete i st1 else st1
      else st)"

definition gsapTick :: "tickerEvent list \<Rightarrow> world \<Rightarrow> world" where
  "gsapTick evs st = foldl (\<lambda>s ev. tickerStep ev s) st evs"

definition onTimeout :: "nat \<Rightarrow> real \<Rightarrow> real \<Rightarrow> world \<Rightarrow> world" where
  "onTimeout i r1 r2 st =
     (if i \<in> set (timeouts st) \<and> i < length (targets st) then
        let target = targets st ! i;
            target' = target\<lparr>visible := True,
                             position := Vector3 (r1 * 10 - 5) (vy (position target)) (- r2 * 5 - 5)\<rparr>
        in st\<lparr>timeouts := remove1 i (timeouts st),
              targets := (targets st)[i := target'],
              tweens := tweens st @ [(i, Grow)]\<rparr>
      else st)"

section \<open>The frame and the set up (lines 69 to 162 and 164 to 324)\<close>

definition onFrame :: "real \<Rightarrow> real \<Rightarrow> frameEnv \<Rightarrow> world \<Rightarrow> error + world" where
  "onFrame delta time env st =
     (case handleController delta env (updateLiquid delta env st) of
        Inl e \<Rightarrow> Inl e
      | Inr st1 \<Rightarrow> Inr (gsapTick (tickerEvents env) (stepBullets delta st1)))"

definition setupScene :: "Vector3 \<Rightarrow> world \<Rightarrow> world" where
  "setupScene cameraPos st =
     updateScoreDisplay
       (st\<lparr>liquidMeshes := liquidMeshes st @
              [\<lparr>rotation = Vector3 (- mathPI / 2) 0 0, inertia = 1\<rparr>,
               \<lparr>rotation = Vector3 (- mathPI / 2) 0 0, inertia = fl (1 / 10)\<rparr>],
           liquidSphereInertia := (liquidSphereInertia st)\<lparr>prevPos := cameraPos\<rparr>,
           scene := sceneAdd ScoreText (scene st)\<rparr>)"

text \<open>
  The loader callbacks of lines 120 to 139. The callback for the targets clones the loaded
  model three times; each clone gets a uuid and two random numbers.
\<close>

definition pushTarget :: "object3D \<Rightarrow> nat \<Rightarrow> string \<times> real \<times> real \<Rightarrow> world \<Rightarrow> world" where
  "pushTarget model i draw st =
     (case draw of (u, r1, r2) \<Rightarrow>
        let target = model\<lparr>uuid := u,
                           position := Vector3 (r1 * 10 - 5) (real i * 2 + 1) (- r2 * 5 - 5)\<rparr>
        in st\<lparr>scene := sceneAdd (TargetChild (length (targets st))) (scene st),
              targets := targets st @ [target]\<rparr>)"

definition targetsLoaded :: "object3D \<Rightarrow> (nat \<Rightarrow> string \<times> real \<times> real) \<Rightarrow> world \<Rightarrow> world" where
  "targetsLoaded model draws st = foldl (\<lambda>s i. pushTarget model i (draws i) s) st [0, 1, 2]"

definition stationLoaded :: "world \<Rightarrow> world" where
  "stationLoaded st = st\<lparr>scene := sceneAdd Station (scene st)\<rparr>"

text \<open>
  A run of the program: after \<open>setupScene\<close>, frames, loader callbacks and timers in any order.
  The state a frame leaves is what \<open>onFrame\<close> returns; no exception leaves \<open>onFrame\<close>
  (lemma \<open>onFrame_frame\<close> below), so the other case never applies.
\<close>

datatype event =
    Frame real real frameEnv
  | StationLoaded
  | TargetsLoaded object3D "nat \<Rightarrow> string \<times> real \<times> real"
  | Timeout nat real real

definition frame :: "real \<Rightarrow> real \<Rightarrow> frameEnv \<Rightarrow> world \<Rightarrow> world" where
  "frame delta time env st = (case onFrame delta time env st of Inr s \<Rightarrow> s | Inl e \<Rightarrow> st)"

fun step :: "event \<Rightarrow> world \<Rightarrow> world" where
  "step (Frame delta time env) st = frame delta time env st"
| "step StationLoaded st = stationLoaded st"
| "step (TargetsLoaded model draws) st = targetsLoaded model draws st"
| "step (Timeout i r1 r2) st = onTimeout i r1 r2 st"

definition run :: "event list \<Rightarrow> world \<Rightarrow> world" where
  "run evs st = foldl (\<lambda>s ev. step ev s) st evs"

section \<open>Notions the statements use\<close>

text \<open>
  The four decimal digits of a number below 10000, thousands first: what the display is
  meant to show.
\<close>

definition fourDigits :: "nat \<Rightarrow> string" where
  "fourDigits n = [digitChar (n div 1000 mod 10), digitChar (n div 100 mod 10),
                   digitChar (n div 10 mod 10), digitChar (n mod 10)]"

text \<open>
  The bullet after lines 281 to 283, the test of line 289, and the visible targets that
  pass it, in the order of \<^verbatim>\<open>targets\<close>.
\<close>

definition advance :: "real \<Rightarrow> bullet \<Rightarrow> bullet" where
  "advance delta b =
     b\<lparr>position := add (position b) (multiplyScalar (velocity b) delta),
       timeToLive := timeToLive b - delta\<rparr>"

definition inRange :: "world \<Rightarrow> bullet \<Rightarrow> nat \<Rightarrow> bool" where
  "inRange st b i = (distanceTo (position (targets st ! i)) (position b) < 1)"

definition hits :: "world \<Rightarrow> bullet \<Rightarrow> nat list" where
  "hits st b = filter (inRange st b) (visibleTargets st)"

text \<open>What the calls of \<open>hitTarget\<close> for the targets \<open>hs\<close> add up to.\<close>

definition render :: "int \<Rightarrow> string" where
  "render s = padStart 4 (CHR ''0'') (toString (max 0 (min 9999 s)))"

definition applyHits :: "bullet \<Rightarrow> nat list \<Rightarrow> world \<Rightarrow> world" where
  "applyHits b hs st =
     st\<lparr>bullets := (if hs = [] then bullets st else AList.delete (uuid b) (bullets st)),
        scene := (sceneRemove (BulletChild (uuid b)) ^^ length hs) (scene st),
        tweens := tweens st @ map (\<lambda>i. (i, Shrink)) hs,
        score := score st + 10 * int (length hs),
        scoreText := (if hs = [] then scoreText st else render (score st + 10 * int (length hs))),
        effects := effects st @ replicate (length hs) ScoreSound\<rparr>"

text \<open>
  Concrete inputs. The state after \<open>setupScene\<close> with the camera at the origin, and a frame
  without controllers in which the camera has moved half a metre to the left.
\<close>

definition startWorld :: world where
  "startWorld = setupScene (Vector3 0 0 0) initialWorld"

text \<open>A state with the blaster already in the hand.\<close>

definition attachedWorld :: world where
  "attachedWorld = startWorld\<lparr>blasterAttached := True\<rparr>"

definition headTurnEnv :: frameEnv where
  "headTurnEnv =
     \<lparr>cameraPosition = Vector3 (- 1 / 2) 0 0, controllersRight = None, tickerEvents = []\<rparr>"

text \<open>
  Heights of targets that are pairwise at least 2 apart, as the heights 1, 3 and 5 that the
  loader gives them (line 133) are.
\<close>

fun apart :: "real list \<Rightarrow> bool" where
  "apart [] = True"
| "apart (y # ys) = (list_all (\<lambda>y'. 2 \<le> \<bar>y - y'\<bar>) ys \<and> apart ys)"

definition targetsApart :: "world \<Rightarrow> bool" where
  "targetsApart st = apart (map (\<lambda>t. vy (position t)) (targets st))"

text \<open>The ticker of this frame completes a shrink tween of target \<open>i\<close>.\<close>

fun completesShrink :: "nat \<Rightarrow> event \<Rightarrow> bool" where
  "completesShrink i (Frame delta time env) = (TweenComplete i Shrink \<in> set (tickerEvents env))"
| "completesShrink i ev = False"

text \<open>
  More concrete inputs: a frame in which nothing is held and the ticker has nothing to do;
  a target as the loader makes it; a bullet flying straight ahead at the height of the
  first target.
\<close>

definition idleEnv :: frameEnv where
  "idleEnv = \<lparr>cameraPosition = Vector3 0 0 0, controllersRight = None, tickerEvents = []\<rparr>"

definition targetAt :: "real \<Rightarrow> real \<Rightarrow> real \<Rightarrow> object3D" where
  "targetAt px py pz =
     \<lparr>uuid = ''target'', position = Vector3 px py pz, quaternion = Quaternion 0 0 0 1,
      scale = Vector3 1 1 1, visible = True\<rparr>"

definition bulletAt :: "string \<Rightarrow> real \<Rightarrow> real \<Rightarrow> bullet" where
  "bulletAt u pz ttl =
     \<lparr>uuid = u, position = Vector3 0 1 pz, quaternion = Quaternion 0 0 0 1,
      scale = Vector3 1 1 1, visible = True,
      velocity = Vector3 0 0 (- 10), timeToLive = ttl\<rparr>"

text \<open>
  The three targets at the heights the loader gives them, one bullet an eighth of a second
  away from the first target and one a quarter of a second away.
\<close>

definition rangeWorld :: world where
  "rangeWorld =
     startWorld\<lparr>targets := [targetAt 0 1 (- 5), targetAt 3 3 (- 6), targetAt (- 2) 5 (- 7)],
       bullets := [(''b1'', bulletAt ''b1'' (- 15 / 4) 1), (''b2'', bulletAt ''b2'' (- 5 / 2) 1)],
       scene := [ScoreText, TargetChild 0, TargetChild 1, TargetChild 2,
                 BulletChild ''b1'', BulletChild ''b2'']\<rparr>"

definition shrinkingEnv :: frameEnv where
  "shrinkingEnv =
     \<lparr>cameraPosition = Vector3 0 0 0, controllersRight = None,
      tickerEvents = [TweenProgress 0 (Vector3 (1 / 2) (1 / 2) (1 / 2))]\<rparr>"

text \<open>A press of the trigger on a gamepad without haptics, before the blaster model is loaded.\<close>

definition emptyHandedController :: controller where
  "emptyHandedController =
     \<lparr>raySpacePosition = Vector3 0 0 0, triggerClick = True,
      hapticActuator = False, bulletPrototype = None\<rparr>"

definition emptyHandedEnv :: frameEnv where
  "emptyHandedEnv =
     \<lparr>cameraPosition = Vector3 0 0 0, controllersRight = Some emptyHandedController,
      tickerEvents = []\<rparr>"

text \<open>
  The three targets again, with a bullet whose time to live has run out while it sits on
  the first target, and a second bullet far from every target.
\<close>

definition staleWorld :: world where
  "staleWorld =
     startWorld\<lparr>targets := [targetAt 0 1 (- 5), targetAt 3 3 (- 6), targetAt (- 2) 5 (- 7)],
       bullets := [(''b1'', bulletAt ''b1'' (- 5) (- 1 / 100)), (''b2'', bulletAt ''b2'' (- 1) 1)],
       scene := [ScoreText, TargetChild 0, TargetChild 1, TargetChild 2,
                 BulletChild ''b1'', BulletChild ''b2'']\<rparr>"

text \<open>
  The two statements that remove a bullet (lines 277 and 278, and again 290 and 291).
\<close>

definition removeBullet :: "string \<Rightarrow> world \<Rightarrow> world" where
  "removeBullet k st =
     st\<lparr>bullets := AList.delete k (bullets st),
        scene := sceneRemove (BulletChild k) (scene st)\<rparr>"

text \<open>
  A bullet survives the frame when its time to live is not negative at the start and no
  visible target is within distance 1 of where the frame moves it.
\<close>

definition survives :: "real \<Rightarrow> world \<Rightarrow> bullet \<Rightarrow> bool" where
  "survives delta st b = (0 \<le> timeToLive b \<and> hits st (advance delta b) = [])"

text \<open>
  The registry and the scene agree: the keys of the registry are distinct and each is the
  uuid of its bullet (line 270), the scene holds no child twice, and the bullets in the scene
  are the bullets of the registry.
\<close>

fun bulletChildren :: "child list \<Rightarrow> string list" where
  "bulletChildren [] = []"
| "bulletChildren (BulletChild k # cs) = k # bulletChildren cs"
| "bulletChildren (c # cs) = bulletChildren cs"

definition registryOk :: "world \<Rightarrow> bool" where
  "registryOk st =
     (distinct (map fst (bullets st))
      \<and> list_all (\<lambda>(k, b). uuid b = k) (bullets st)
      \<and> distinct (scene st)
      \<and> set (bulletChildren (scene st)) = fst ` set (bullets st))"

text \<open>
  The hits of one bullet in the loop, and all the hits of one run of the loop over the
  bullets, in the order they happen.
\<close>

definition bulletHits :: "real \<Rightarrow> world \<Rightarrow> bullet \<Rightarrow> nat list" where
  "bulletHits delta st b = (if timeToLive b < 0 then [] else hits st (advance delta b))"

definition frameHits :: "real \<Rightarrow> world \<Rightarrow> nat list" where
  "frameHits delta st = concat (map (bulletHits delta st) (map snd (bullets st)))"

text \<open>
  A bullet in flight with a sixteenth of a second left to live and no target anywhere.
\<close>

definition lateWorld :: world where
  "lateWorld =
     startWorld\<lparr>bullets := [(''b1'', bulletAt ''b1'' (- 1) (1 / 16))],
       scene := [ScoreText, BulletChild ''b1'']\<rparr>"

text \<open>
  The state one frame after \<open>rangeWorld\<close>: the first bullet has hit the first target, whose
  shrink tween is running, and the second bullet is an eighth of a second away from it.
\<close>

definition shrinkingWorld :: world where
  "shrinkingWorld =
     startWorld\<lparr>targets := [targetAt 0 1 (- 5), targetAt 3 3 (- 6), targetAt (- 2) 5 (- 7)],
       bullets := [(''b2'', bulletAt ''b2'' (- 15 / 4) (7 / 8))],
       scene := [ScoreText, TargetChild 0, TargetChild 1, TargetChild 2, BulletChild ''b2''],
       tweens := [(0, Shrink)], score := 10, scoreText := ''0010'',
       effects := [ScoreSound]\<rparr>"

text \<open>The heights of the targets, in the order of \<^verbatim>\<open>targets\<close>.\<close>

definition heights :: "world \<Rightarrow> real list" where
  "heights st = map (\<lambda>t. vy (position t)) (targets st)"





text \<open>
  Half of the smallest positive binary64 number: the largest rounding error of a result in
  the subnormal range.
\<close>

definition tiny :: real where
  "tiny = 2 powr (- 1075)"

text \<open>
  The blend of lines 240 and 241 with factor 1, and a bound for the distance of that
  value from the target, from its three roundings, for a tilt and a target of magnitude
  at most \<open>M\<close>.
\<close>

definition fullBlend :: "real \<Rightarrow> real \<Rightarrow> real" where
  "fullBlend y t = fl (y + fl (fl (t - y) * 1))"

definition roundingSlack :: "real \<Rightarrow> real" where
  "roundingSlack M = M / 2 ^ 51 + 2 powr (- 1073)"

text \<open>
  Three frames after the set up. In the first, of a 64th of a second, the controller is
  held at the origin and the blaster is attached to it. In the second, of 0.016 seconds,
  the controller has moved to \<open>x = 0.05\<close>. In the third, of an eighth of a second, it is
  back at the origin.
\<close>

definition holdEnv :: frameEnv where
  "holdEnv =
     \<lparr>cameraPosition = Vector3 0 0 0,
      controllersRight = Some \<lparr>raySpacePosition = Vector3 0 0 0, triggerClick = False,
        hapticActuator = True, bulletPrototype = None\<rparr>,
      tickerEvents = []\<rparr>"

definition nudgeEnv :: frameEnv where
  "nudgeEnv =
     \<lparr>cameraPosition = Vector3 0 0 0,
      controllersRight = Some \<lparr>raySpacePosition = Vector3 (fl (5 / 100)) 0 0,
        triggerClick = False, hapticActuator = True, bulletPrototype = None\<rparr>,
      tickerEvents = []\<rparr>"

definition heldWorld :: world where
  "heldWorld = frame (1 / 64) 0 holdEnv startWorld"

definition nudgedWorld :: world where
  "nudgedWorld = frame (fl (16 / 1000)) 0 nudgeEnv heldWorld"

section \<open>The score display\<close>

lemma digitChar_0: "digitChar 0 = CHR ''0''"
  by (simp add: digitChar_def)

lemma natToString_1: "n < 10 \<Longrightarrow> natToString n = [digitChar n]"
  by (simp add: natToString.simps)

lemma natToString_2:
  "10 \<le> n \<Longrightarrow> n < 100 \<Longrightarrow> natToString n = [digitChar (n div 10), digitChar (n mod 10)]"
  by (subst natToString.simps) (simp add: natToString_1)

lemma natToString_3:
  "100 \<le> n \<Longrightarrow> n < 1000 \<Longrightarrow>
     natToString n = [digitChar (n div 100), digitChar (n div 10 mod 10), digitChar (n mod 10)]"
  by (subst natToString.simps) (simp add: natToString_2 div_mult2_eq[symmetric])

lemma natToString_4:
  "1000 \<le> n \<Longrightarrow> n < 10000 \<Longrightarrow>
     natToString n = [digitChar (n div 1000), digitChar (n div 100 mod 10),
                      digitChar (n div 10 mod 10), digitChar (n mod 10)]"
  by (subst natToString.simps) (simp add: natToString_3 div_mult2_eq[symmetric])

lemma replicate_small: "replicate 3 c = [c, c, c]" "replicate 2 c = [c, c]"
  by (simp_all add: numeral_3_eq_3 numeral_2_eq_2)

lemma padStart_natToString:
  assumes "n < 10000"
  shows "padStart 4 (CHR ''0'') (natToString n) = fourDigits n"
proof -
  consider "n < 10" | "10 \<le> n \<and> n < 100" | "100 \<le> n \<and> n < 1000" | "1000 \<le> n \<and> n < 10000"
    using assms by linarith
  then show ?thesis
  proof cases
    case 1
    then show ?thesis
      by (simp add: natToString_1 padStart_def fourDigits_def digitChar_0 replicate_small)
  next
    case 2
    then have "n div 10 < 10" by (intro less_mult_imp_div_less) simp
    with 2 have a: "n div 10 mod 10 = n div 10" "n div 100 = 0" "n div 1000 = 0" by simp_all
    show ?thesis using 2
      by (simp add: a natToString_2 padStart_def fourDigits_def digitChar_0 replicate_small)
  next
    case 3
    then have "n div 100 < 10" by (intro less_mult_imp_div_less) simp
    with 3 have a: "n div 100 mod 10 = n div 100" "n div 1000 = 0" by simp_all
    show ?thesis using 3
      by (simp add: a natToString_3 padStart_def fourDigits_def digitChar_0 replicate_small)
  next
    case 4
    then have "n div 1000 < 10" by (intro less_mult_imp_div_less) simp
    then have a: "n div 1000 mod 10 = n div 1000" by simp
    show ?thesis using 4
      by (simp add: a natToString_4 padStart_def fourDigits_def digitChar_0 replicate_small)
  qed
qed

lemma render_fourDigits: "render s = fourDigits (nat (max 0 (min 9999 s)))"
  by (simp add: render_def toString_def padStart_natToString)

lemma updateScoreDisplay_render: "updateScoreDisplay st = st\<lparr>scoreText := render (score st)\<rparr>"
  by (simp add: updateScoreDisplay_def render_def)

text \<open>
  Claim C6. For every stored score the text on display is the clamp of the score to 0 and
  9999, written with exactly four decimal digits, zeros first; the stored score is left as
  it is. A stored -5 shows as 0000 and a stored 15000 as 9999.
\<close>

theorem updateScoreDisplay_shows_clamped:
  "scoreText (updateScoreDisplay st) = fourDigits (nat (max 0 (min 9999 (score st))))
   \<and> score (updateScoreDisplay st) = score st
   \<and> scoreText (updateScoreDisplay (st\<lparr>score := - 5\<rparr>)) = ''0000''
   \<and> scoreText (updateScoreDisplay (st\<lparr>score := 15000\<rparr>)) = ''9999''
   \<and> score (updateScoreDisplay (st\<lparr>score := 15000\<rparr>)) = 15000"
  by (simp add: updateScoreDisplay_render render_fourDigits fourDigits_def digitChar_def)

section \<open>The loop over the targets in closed form\<close>

lemma applyHits_Nil: "applyHits b [] st = st"
  by (simp add: applyHits_def)

lemma hitTarget_miss: "\<not> inRange st b i \<Longrightarrow> hitTarget b i st = st"
  by (simp add: hitTarget_def inRange_def)

lemma hitTarget_hit: "inRange st b i \<Longrightarrow> hitTarget b i st = applyHits b [i] st"
  by (simp add: hitTarget_def inRange_def applyHits_def updateScoreDisplay_def render_def Let_def)

lemma inRange_applyHits: "inRange (applyHits b hs st) b' = inRange st b'"
  by (rule ext) (simp add: inRange_def applyHits_def)

lemma applyHits_applyHits:
  "applyHits b hs' (applyHits b [i] st) = applyHits b (i # hs') st"
  by (simp add: applyHits_def AList.delete_idem funpow_swap1 add.assoc)

lemma foldl_hitTarget:
  "foldl (\<lambda>s i. hitTarget b i s) st is = applyHits b (filter (inRange st b) is) st"
proof (induction "is" arbitrary: st)
  case Nil
  show ?case by (simp add: applyHits_Nil)
next
  case (Cons i "is")
  show ?case
  proof (cases "inRange st b i")
    case True
    have "filter (inRange (applyHits b [i] st) b) is = filter (inRange st b) is"
      by (simp add: inRange_applyHits)
    with True Cons show ?thesis
      by (simp add: hitTarget_hit applyHits_applyHits)
  next
    case False
    with Cons show ?thesis by (simp add: hitTarget_miss)
  qed
qed

lemma stepBullet_expired:
  "timeToLive b < 0 \<Longrightarrow>
     stepBullet delta b st =
       st\<lparr>bullets := AList.delete (uuid b) (bullets st),
          scene := sceneRemove (BulletChild (uuid b)) (scene st)\<rparr>"
  by (simp add: stepBullet_def)

lemma stepBullet_live:
  "\<not> timeToLive b < 0 \<Longrightarrow>
     stepBullet delta b st =
       applyHits (advance delta b) (hits st (advance delta b))
         (st\<lparr>bullets := AList.map_entry (uuid b) (\<lambda>_. advance delta b) (bullets st)\<rparr>)"
  by (simp add: stepBullet_def Let_def foldl_hitTarget advance_def hits_def
      visibleTargets_def inRange_def)


lemma advance_simps:
  "uuid (advance delta b) = uuid b"
  "position (advance delta b) = add (position b) (multiplyScalar (velocity b) delta)"
  "timeToLive (advance delta b) = timeToLive b - delta"
  "velocity (advance delta b) = velocity b"
  by (simp_all add: advance_def)

lemma applyHits_fields:
  "targets (applyHits b hs st) = targets st"
  "score (applyHits b hs st) = score st + 10 * int (length hs)"
  "tweens (applyHits b hs st) = tweens st @ map (\<lambda>i. (i, Shrink)) hs"
  "timeouts (applyHits b hs st) = timeouts st"
  "bullets (applyHits b hs st) = (if hs = [] then bullets st else AList.delete (uuid b) (bullets st))"
  "scene (applyHits b hs st) = (sceneRemove (BulletChild (uuid b)) ^^ length hs) (scene st)"
  "blasterInertia (applyHits b hs st) = blasterInertia st"
  "liquidSphereInertia (applyHits b hs st) = liquidSphereInertia st"
  by (simp_all add: applyHits_def)

lemma stepBullet_targets: "targets (stepBullet delta b st) = targets st"
  by (cases "timeToLive b < 0") (simp_all add: stepBullet_expired stepBullet_live applyHits_fields)

lemma hits_cong: "targets st' = targets st \<Longrightarrow> hits st' b = hits st b"
  by (simp add: hits_def visibleTargets_def inRange_def[abs_def])

section \<open>Rounding to binary64\<close>

text \<open>
  \<open>fl\<close> rounds to the nearest multiple of the unit in the last place, is odd and
  monotone, leaves the binary64 numbers fixed and is idempotent; its error is at most
  \<open>\<bar>x\<bar> / 2\<^sup>5\<^sup>3 + tiny\<close>. \<open>fl_eval\<close> computes it at a number whose binade is known.
\<close>

lemma roundEven_of_int: "roundEven (of_int n) = n"
  by (simp add: roundEven_def)

lemma roundEven_range: "\<lfloor>r\<rfloor> \<le> roundEven r" "roundEven r \<le> \<lfloor>r\<rfloor> + 1"
  by (simp_all add: roundEven_def Let_def)

lemma roundEven_error: "\<bar>of_int (roundEven r) - r\<bar> \<le> 1 / 2"
proof -
  have "of_int \<lfloor>r\<rfloor> \<le> r" "r < of_int \<lfloor>r\<rfloor> + 1" by linarith+
  then show ?thesis by (auto simp: roundEven_def Let_def abs_le_iff)
qed

lemma roundEven_eq:
  assumes "\<bar>r - of_int n\<bar> < 1 / 2"
  shows "roundEven r = n"
proof -
  have e: "\<bar>of_int (roundEven r) - r\<bar> \<le> 1 / 2" by (rule roundEven_error)
  have "\<bar>(of_int (roundEven r) :: real) - of_int n\<bar> < 1" using assms e by linarith
  then have "\<bar>roundEven r - n\<bar> < 1" by (metis of_int_diff of_int_abs of_int_less_1_iff)
  then show ?thesis by simp
qed

lemma roundEven_mono:
  assumes "r \<le> s"
  shows "roundEven r \<le> roundEven s"
proof (cases "\<lfloor>r\<rfloor> = \<lfloor>s\<rfloor>")
  case True
  with assms show ?thesis by (auto simp: roundEven_def Let_def)
next
  case False
  with assms have "\<lfloor>r\<rfloor> < \<lfloor>s\<rfloor>" using floor_mono[OF assms] by linarith
  then have "roundEven r \<le> \<lfloor>s\<rfloor>" using roundEven_range(2)[of r] by linarith
  with roundEven_range(1)[of s] show ?thesis by linarith
qed

lemma roundEven_minus: "roundEven (- r) = - roundEven r"
proof (cases "r \<in> \<int>")
  case True
  then obtain n where "r = of_int n" by (auto elim: Ints_cases)
  then show ?thesis by (simp add: roundEven_of_int flip: of_int_minus)
next
  case False
  have ne: "r \<noteq> of_int \<lfloor>r\<rfloor>" using False by (metis Ints_of_int)
  moreover have "of_int \<lfloor>r\<rfloor> \<le> r" "r < of_int \<lfloor>r\<rfloor> + 1" by linarith+
  ultimately have lt: "of_int \<lfloor>r\<rfloor> < r" "r < of_int \<lfloor>r\<rfloor> + 1" by linarith+
  have fl: "\<lfloor>- r\<rfloor> = - \<lfloor>r\<rfloor> - 1"
    using lt by (intro floor_unique; simp; linarith)
  from lt show ?thesis
    unfolding roundEven_def Let_def fl by (auto simp: algebra_simps)
qed









lemma ulp_pos: "0 < ulp x"
  by (simp add: ulp_def)

lemma ulpExponent_minus: "ulpExponent (- x) = ulpExponent x"
  by (simp add: ulpExponent_def)

lemma ulp_minus: "ulp (- x) = ulp x"
  by (simp add: ulp_def ulpExponent_minus)

lemma fl_0: "fl 0 = 0"
  by (simp add: fl_def)

lemma fl_minus: "fl (- x) = - fl x"
  by (simp add: fl_def ulp_minus roundEven_minus)

lemma binade_bounds:
  assumes "x \<noteq> 0"
  shows "2 powr of_int \<lfloor>log 2 \<bar>x\<bar>\<rfloor> \<le> \<bar>x\<bar>" "\<bar>x\<bar> < 2 powr of_int (\<lfloor>log 2 \<bar>x\<bar>\<rfloor> + 1)"
proof -
  have p: "0 < \<bar>x\<bar>" using assms by simp
  have "of_int \<lfloor>log 2 \<bar>x\<bar>\<rfloor> \<le> log 2 \<bar>x\<bar>" by linarith
  then show "2 powr of_int \<lfloor>log 2 \<bar>x\<bar>\<rfloor> \<le> \<bar>x\<bar>"
    using p le_log_iff[of 2 "\<bar>x\<bar>" "of_int \<lfloor>log 2 \<bar>x\<bar>\<rfloor>"] by fastforce
  have "log 2 \<bar>x\<bar> < of_int (\<lfloor>log 2 \<bar>x\<bar>\<rfloor> + 1)" by linarith
  then show "\<bar>x\<bar> < 2 powr of_int (\<lfloor>log 2 \<bar>x\<bar>\<rfloor> + 1)"
    using p log_less_iff[of 2 "\<bar>x\<bar>" "of_int (\<lfloor>log 2 \<bar>x\<bar>\<rfloor> + 1)"] by fastforce
qed

lemma binade_unique:
  assumes "2 powr of_int e \<le> \<bar>x\<bar>" "\<bar>x\<bar> < 2 powr of_int (e + 1)"
  shows "\<lfloor>log 2 \<bar>x\<bar>\<rfloor> = e"
proof -
  have p: "0 < \<bar>x\<bar>" using assms(1) by (smt (verit) powr_gt_zero)
  show ?thesis
  proof (rule floor_unique)
    show "of_int e \<le> log 2 \<bar>x\<bar>" using assms(1) p by (simp add: le_log_iff)
    show "log 2 \<bar>x\<bar> < of_int e + 1" using assms(2) p by (simp add: log_less_iff)
  qed
qed

lemma powr_int_nonneg: "0 \<le> e \<Longrightarrow> 2 powr of_int e = (of_int (2 ^ nat e) :: real)"
  by (simp add: powr_realpow[symmetric])

text \<open>Every number n * 2^e with fewer than 54 bits and an exponent in range is a double.\<close>

lemma fl_dyadic:
  assumes n: "\<bar>n\<bar> < 2 ^ 53" and e: "- 1074 \<le> e"
  shows "fl (of_int n * 2 powr of_int e) = of_int n * 2 powr of_int e"
proof (cases "n = 0")
  case True
  then show ?thesis by (simp add: fl_0)
next
  case False
  define x :: real where "x = of_int n * 2 powr of_int e"
  have x0: "x \<noteq> 0" using False by (simp add: x_def)
  have ax: "\<bar>x\<bar> = of_int \<bar>n\<bar> * 2 powr of_int e" by (simp add: x_def abs_mult)
  have "(of_int \<bar>n\<bar> :: real) < 2 ^ 53" using n by (metis of_int_less_numeral_power_cancel_iff)
  then have "\<bar>x\<bar> < 2 ^ 53 * 2 powr of_int e" by (simp add: ax)
  also have "\<dots> = 2 powr of_int (e + 53)"
    by (simp add: powr_add powr_realpow[symmetric] mult.commute)
  finally have up: "\<bar>x\<bar> < 2 powr of_int (e + 53)" .
  have "(2::real) powr of_int \<lfloor>log 2 \<bar>x\<bar>\<rfloor> < 2 powr of_int (e + 53)"
    using binade_bounds(1)[OF x0] up by linarith
  then have "\<lfloor>log 2 \<bar>x\<bar>\<rfloor> < e + 53" by simp
  then have q: "ulpExponent x \<le> e" using e by (simp add: ulpExponent_def)
  define d where "d = e - ulpExponent x"
  have d0: "0 \<le> d" using q by (simp add: d_def)
  have "2 powr of_int e = 2 powr of_int d * ulp x"
    by (simp add: d_def ulp_def powr_add[symmetric])
  then have xe: "x = of_int (n * 2 ^ nat d) * ulp x"
    by (simp add: x_def powr_int_nonneg[OF d0])
  then have "x / ulp x = of_int (n * 2 ^ nat d)"
    using ulp_pos[of x] by (metis nonzero_mult_div_cancel_right less_irrefl)
  then have "roundEven (x / ulp x) = n * 2 ^ nat d" by (simp only: roundEven_of_int)
  then have "fl x = x" using x0 xe by (simp add: fl_def)
  then show ?thesis by (simp add: x_def)
qed



lemma fl_dyadic_div:
  assumes "\<bar>n\<bar> < 2 ^ 53" and "k \<le> 1074"
  shows "fl (of_int n / 2 ^ k) = of_int n / 2 ^ k"
proof -
  have "(2::real) powr of_int (- int k) = 1 / 2 ^ k"
    by (simp add: powr_minus powr_realpow inverse_eq_divide)
  then show ?thesis using fl_dyadic[of n "- int k"] assms by simp
qed

lemma fl_dyadic_mult:
  assumes "\<bar>n\<bar> < 2 ^ 53"
  shows "fl (of_int n * 2 ^ k) = of_int n * 2 ^ k"
proof -
  have "(2::real) powr of_int (int k) = 2 ^ k"
    by (simp add: powr_realpow)
  then show ?thesis using fl_dyadic[of n "int k"] assms by simp
qed

lemma fl_of_int:
  assumes "\<bar>n\<bar> < 2 ^ 53"
  shows "fl (of_int n) = of_int n"
  using fl_dyadic_mult[OF assms, of 0] by simp

lemma fl_nonneg:
  assumes "0 \<le> x"
  shows "0 \<le> fl x"
proof -
  have "0 \<le> x / ulp x" using assms ulp_pos[of x] by simp
  then have "0 \<le> \<lfloor>x / ulp x\<rfloor>" by simp
  then have "0 \<le> roundEven (x / ulp x)" using roundEven_range(1)[of "x / ulp x"] by linarith
  then show ?thesis using ulp_pos[of x] by (simp add: fl_def)
qed

lemma fl_nonpos: "x \<le> 0 \<Longrightarrow> fl x \<le> 0"
  using fl_nonneg[of "- x"] by (simp add: fl_minus)

lemma ulpExponent_mono:
  assumes "0 < x" "x \<le> y"
  shows "ulpExponent x \<le> ulpExponent y"
proof -
  have "log 2 \<bar>x\<bar> \<le> log 2 \<bar>y\<bar>" using assms by simp
  then have "\<lfloor>log 2 \<bar>x\<bar>\<rfloor> \<le> \<lfloor>log 2 \<bar>y\<bar>\<rfloor>" by (rule floor_mono)
  then show ?thesis by (simp add: ulpExponent_def)
qed

lemma fl_mono_pos:
  assumes x: "0 < x" and xy: "x \<le> y"
  shows "fl x \<le> fl y"
proof (cases "ulpExponent x = ulpExponent y")
  case True
  then have u: "ulp x = ulp y" by (simp add: ulp_def)
  have "x / ulp y \<le> y / ulp y" using xy ulp_pos[of y] by (simp add: divide_right_mono)
  then have "roundEven (x / ulp y) \<le> roundEven (y / ulp y)" by (rule roundEven_mono)
  then have "(of_int (roundEven (x / ulp y)) :: real) * ulp y \<le> of_int (roundEven (y / ulp y)) * ulp y"
    using ulp_pos[of y] by simp
  then show ?thesis using x xy by (simp add: fl_def u)
next
  case False
  define qx where "qx = ulpExponent x"
  define qy where "qy = ulpExponent y"
  define bx where "bx = \<lfloor>log 2 \<bar>x\<bar>\<rfloor>"
  define b where "b = \<lfloor>log 2 \<bar>y\<bar>\<rfloor>"
  have lt: "qx < qy" using False ulpExponent_mono[OF x xy] by (simp add: qx_def qy_def)
  have qx: "qx = max (bx - 52) (- 1074)" by (simp add: qx_def bx_def ulpExponent_def)
  have qy0: "qy = max (b - 52) (- 1074)" by (simp add: qy_def b_def ulpExponent_def)
  have qy: "qy = b - 52" using lt qx qy0 by linarith
  have bxb: "bx + 1 \<le> b" using lt qx qy by linarith
  have y0: "y \<noteq> 0" "x \<noteq> 0" "0 < y" using x xy by linarith+
  define D :: real where "D = 2 powr of_int b"
  have Dy: "D \<le> y" using binade_bounds(1)[OF y0(1)] y0(3) by (simp add: D_def b_def)
  have "x < 2 powr of_int (bx + 1)" using binade_bounds(2)[OF y0(2)] x by (simp add: bx_def)
  also have "\<dots> \<le> D" unfolding D_def using bxb by simp
  finally have xD: "x \<le> D" by simp
  have ux: "ulp x = 2 powr of_int qx" and uy: "ulp y = 2 powr of_int qy"
    by (simp_all add: ulp_def qx_def qy_def)
  have dx: "0 \<le> b - qx" using lt qy by linarith
  have "D = 2 powr of_int (b - qx) * ulp x"
    by (simp add: D_def ux powr_add[symmetric])
  then have Dx: "D = of_int (2 ^ nat (b - qx)) * ulp x"
    by (simp only: powr_int_nonneg[OF dx])
  have "x / ulp x \<le> D / ulp x" using xD ulp_pos[of x] by (simp add: divide_right_mono)
  also have "D / ulp x = of_int (2 ^ nat (b - qx))"
    using ulp_pos[of x] Dx by (metis nonzero_mult_div_cancel_right less_irrefl)
  finally have "roundEven (x / ulp x) \<le> roundEven (of_int (2 ^ nat (b - qx)))"
    by (rule roundEven_mono)
  then have "roundEven (x / ulp x) \<le> 2 ^ nat (b - qx)" by (simp only: roundEven_of_int)
  then have "(of_int (roundEven (x / ulp x)) :: real) \<le> of_int (2 ^ nat (b - qx))"
    by (simp only: of_int_le_iff)
  then have "of_int (roundEven (x / ulp x)) * ulp x \<le> of_int (2 ^ nat (b - qx)) * ulp x"
    using ulp_pos[of x] by (simp only: mult_le_cancel_right_pos)
  then have 1: "fl x \<le> D" using y0(2) Dx by (simp add: fl_def)
  have p52: "(2::real) powr of_int 52 = of_int (2 ^ 52)"
    using powr_int_nonneg[of 52] by simp
  have "(2::real) powr of_int 52 * 2 powr of_int (b - 52) = 2 powr (of_int 52 + of_int (b - 52))"
    by (simp only: powr_add)
  also have "of_int 52 + of_int (b - 52) = (of_int b :: real)" by simp
  finally have Dy': "D = of_int (2 ^ 52) * ulp y"
    by (simp only: D_def uy qy p52)
  have "D / ulp y \<le> y / ulp y" using Dy ulp_pos[of y] by (simp add: divide_right_mono)
  moreover have "D / ulp y = of_int (2 ^ 52)"
    using ulp_pos[of y] Dy' by (metis nonzero_mult_div_cancel_right less_irrefl)
  ultimately have "roundEven (of_int (2 ^ 52)) \<le> roundEven (y / ulp y)"
    by (metis roundEven_mono)
  then have "2 ^ 52 \<le> roundEven (y / ulp y)" by (simp only: roundEven_of_int)
  then have "(of_int (2 ^ 52) :: real) \<le> of_int (roundEven (y / ulp y))"
    by (simp only: of_int_le_iff)
  then have "of_int (2 ^ 52) * ulp y \<le> of_int (roundEven (y / ulp y)) * ulp y"
    using ulp_pos[of y] by (simp only: mult_le_cancel_right_pos)
  then have 2: "D \<le> fl y" using y0(1) Dy' by (simp add: fl_def)
  from 1 2 show ?thesis by linarith
qed

lemma fl_mono:
  assumes "x \<le> y"
  shows "fl x \<le> fl y"
proof -
  consider "0 < x" | "x \<le> 0" "0 \<le> y" | "y < 0" by linarith
  then show ?thesis
  proof cases
    case 1
    then show ?thesis using assms by (rule fl_mono_pos)
  next
    case 2
    then show ?thesis using fl_nonpos[of x] fl_nonneg[of y] by linarith
  next
    case 3
    then have "fl (- y) \<le> fl (- x)" using assms by (intro fl_mono_pos) simp_all
    then show ?thesis by (simp add: fl_minus)
  qed
qed



lemma fl_error_ulp: "\<bar>fl x - x\<bar> \<le> ulp x / 2"
proof (cases "x = 0")
  case True
  then show ?thesis using ulp_pos[of x] by (simp add: fl_0)
next
  case False
  have u: "0 < ulp x" by (rule ulp_pos)
  have "fl x - x = (of_int (roundEven (x / ulp x)) - x / ulp x) * ulp x"
    using False u by (simp add: fl_def algebra_simps)
  then have "\<bar>fl x - x\<bar> = \<bar>of_int (roundEven (x / ulp x)) - x / ulp x\<bar> * ulp x"
    using u by (simp add: abs_mult)
  also have "\<dots> \<le> 1 / 2 * ulp x"
    using roundEven_error[of "x / ulp x"] u by (intro mult_right_mono) simp_all
  finally show ?thesis by simp
qed

lemma ulp_le:
  assumes "x \<noteq> 0"
  shows "ulp x \<le> \<bar>x\<bar> / 2 ^ 52 \<or> ulp x = 2 powr (- 1074)"
proof (cases "\<lfloor>log 2 \<bar>x\<bar>\<rfloor> - 52 \<le> - 1074")
  case True
  then have "ulpExponent x = - 1074" by (simp add: ulpExponent_def)
  then show ?thesis by (simp add: ulp_def)
next
  case False
  then have q: "ulpExponent x = \<lfloor>log 2 \<bar>x\<bar>\<rfloor> - 52" by (simp add: ulpExponent_def)
  have "ulp x = 2 powr of_int \<lfloor>log 2 \<bar>x\<bar>\<rfloor> / 2 powr 52"
    by (simp add: ulp_def q powr_diff)
  also have "\<dots> \<le> \<bar>x\<bar> / 2 powr 52"
    using binade_bounds(1)[OF assms] by (intro divide_right_mono) simp_all
  finally show ?thesis by simp
qed



lemma tiny_pos: "0 < tiny"
  by (simp add: tiny_def)

lemma fl_error: "\<bar>fl x - x\<bar> \<le> \<bar>x\<bar> / 2 ^ 53 + tiny"
proof (cases "x = 0")
  case True
  then show ?thesis using tiny_pos by (simp add: fl_0)
next
  case False
  have h: "(2::real) powr (- 1074) / 2 = tiny"
    unfolding tiny_def using powr_diff[of "2::real" "- 1074" 1] by simp
  have e: "\<bar>fl x - x\<bar> \<le> ulp x / 2" by (rule fl_error_ulp)
  from ulp_le[OF False] show ?thesis
  proof
    assume "ulp x \<le> \<bar>x\<bar> / 2 ^ 52"
    then have "ulp x / 2 \<le> \<bar>x\<bar> / 2 ^ 53" by simp
    with e tiny_pos show ?thesis by linarith
  next
    assume "ulp x = 2 powr (- 1074)"
    then have "ulp x / 2 = tiny" using h by simp
    with e show ?thesis by (smt (verit) divide_nonneg_pos abs_ge_zero zero_less_power)
  qed
qed

lemma quotient_bound:
  assumes "x \<noteq> 0"
  shows "\<bar>x\<bar> / ulp x < 2 ^ 53"
proof -
  define b where "b = \<lfloor>log 2 \<bar>x\<bar>\<rfloor>"
  have "b - 52 \<le> ulpExponent x" by (simp add: ulpExponent_def b_def)
  then have "(2::real) powr of_int (b - 52) \<le> ulp x" by (simp add: ulp_def)
  moreover have "\<bar>x\<bar> < 2 powr of_int (b + 1)"
    using binade_bounds(2)[OF assms] by (simp add: b_def)
  moreover have "(2::real) powr of_int (b + 1) = 2 ^ 53 * 2 powr of_int (b - 52)"
  proof -
    have "(2::real) powr of_int 53 * 2 powr of_int (b - 52) = 2 powr (of_int 53 + of_int (b - 52))"
      by (simp only: powr_add)
    also have "of_int 53 + of_int (b - 52) = (of_int (b + 1) :: real)" by simp
    finally show ?thesis using powr_int_nonneg[of 53] by simp
  qed
  ultimately have "\<bar>x\<bar> < 2 ^ 53 * ulp x"
    by (smt (verit) mult_left_mono zero_le_power)
  then show ?thesis using ulp_pos[of x] by (simp add: pos_divide_less_eq)
qed

lemma fl_fl: "fl (fl x) = fl x"
proof (cases "x = 0")
  case True
  then show ?thesis by (simp add: fl_0)
next
  case False
  define N where "N = roundEven (x / ulp x)"
  define q where "q = ulpExponent x"
  have flx: "fl x = of_int N * 2 powr of_int q"
    using False by (simp add: fl_def N_def q_def ulp_def)
  have q: "- 1074 \<le> q" by (simp add: q_def ulpExponent_def)
  have b: "\<bar>x / ulp x\<bar> < 2 ^ 53"
    using quotient_bound[OF False] ulp_pos[of x] by simp
  have "x / ulp x \<le> 2 ^ 53" "- (2 ^ 53) \<le> x / ulp x"
    using b by linarith+
  then have c: "x / ulp x \<le> of_int (2 ^ 53)" "of_int (- (2 ^ 53)) \<le> x / ulp x"
    by simp_all
  have "roundEven (x / ulp x) \<le> roundEven (of_int (2 ^ 53))"
    "roundEven (of_int (- (2 ^ 53))) \<le> roundEven (x / ulp x)"
    by (rule roundEven_mono[OF c(1)], rule roundEven_mono[OF c(2)])
  then have N: "N \<le> 2 ^ 53" "- (2 ^ 53) \<le> N"
    unfolding N_def by (simp_all only: roundEven_of_int)
  consider "\<bar>N\<bar> < 2 ^ 53" | "N = 2 ^ 53" | "N = - (2 ^ 53)" using N by linarith
  then show ?thesis
  proof cases
    case 1
    then show ?thesis unfolding flx by (rule fl_dyadic[OF _ q])
  next
    case 2
    have "fl x = of_int (2 ^ 52) * 2 powr of_int (q + 1)"
      unfolding flx 2 by (simp add: powr_add)
    moreover have "fl (of_int (2 ^ 52) * 2 powr of_int (q + 1)) = of_int (2 ^ 52) * 2 powr of_int (q + 1)"
      by (rule fl_dyadic) (use q in simp_all)
    ultimately show ?thesis by simp
  next
    case 3
    have "fl x = of_int (- (2 ^ 52)) * 2 powr of_int (q + 1)"
      unfolding flx 3 by (simp add: powr_add)
    moreover have "fl (of_int (- (2 ^ 52)) * 2 powr of_int (q + 1)) = of_int (- (2 ^ 52)) * 2 powr of_int (q + 1)"
      by (rule fl_dyadic) (use q in simp_all)
    ultimately show ?thesis by simp
  qed
qed

lemma fl_eval:
  assumes k: "k \<le> 1074"
    and lo: "2 ^ 52 \<le> \<bar>x\<bar> * 2 ^ k" and hi: "\<bar>x\<bar> * 2 ^ k < 2 ^ 53"
    and n: "\<bar>x * 2 ^ k - of_int n\<bar> < 1 / 2"
  shows "fl x = of_int n / 2 ^ k"
proof -
  have pk: "(2::real) powr of_int (- int k) = 1 / 2 ^ k"
    by (simp add: powr_minus powr_realpow inverse_eq_divide)
  have pk': "(2::real) powr - real k = 1 / 2 ^ k"
    by (simp add: powr_minus powr_realpow inverse_eq_divide)
  have x0: "x \<noteq> 0" using lo by auto
  have "(2::real) powr of_int (52 - int k) = 2 powr of_int 52 * 2 powr of_int (- int k)"
    by (simp only: powr_add[symmetric]) simp
  also have "\<dots> = 2 ^ 52 / 2 ^ k" unfolding pk using powr_int_nonneg[of 52] by simp
  finally have l: "(2::real) powr of_int (52 - int k) = 2 ^ 52 / 2 ^ k" .
  have "(2::real) powr of_int (52 - int k + 1) = 2 powr of_int 53 * 2 powr of_int (- int k)"
    by (simp only: powr_add[symmetric]) simp
  also have "\<dots> = 2 ^ 53 / 2 ^ k" unfolding pk using powr_int_nonneg[of 53] by simp
  finally have h: "(2::real) powr of_int (52 - int k + 1) = 2 ^ 53 / 2 ^ k" .
  have "\<lfloor>log 2 \<bar>x\<bar>\<rfloor> = 52 - int k"
  proof (rule binade_unique)
    show "2 powr of_int (52 - int k) \<le> \<bar>x\<bar>"
      unfolding l using lo by (simp add: pos_divide_le_eq)
    show "\<bar>x\<bar> < 2 powr of_int (52 - int k + 1)"
      unfolding h using hi by (simp add: pos_less_divide_eq)
  qed
  then have "ulpExponent x = - int k" using k by (simp add: ulpExponent_def)
  then have u: "ulp x = 1 / 2 ^ k" by (simp add: ulp_def pk')
  have "roundEven (x / ulp x) = n" using n by (intro roundEven_eq) (simp add: u)
  then show ?thesis using x0 by (simp add: fl_def u)
qed







lemma four_tiny: "4 * tiny = 2 powr (- 1073)"
  unfolding tiny_def using powr_add[of "2::real" 2 "- 1075"] by simp

lemma blend_between:
  assumes "0 \<le> k" "k \<le> 1"
  shows "min (fl y) (fullBlend y t) \<le> fl (y + fl (fl (t - y) * k))"
    and "fl (y + fl (fl (t - y) * k)) \<le> max (fl y) (fullBlend y t)"
proof -
  define d where "d = fl (t - y)"
  have z: "fl (y + fl (d * 0)) = fl y" by (simp add: fl_0)
  have m: "min (fl y) (fullBlend y t) \<le> fl (y + fl (d * k))
         \<and> fl (y + fl (d * k)) \<le> max (fl y) (fullBlend y t)"
  proof (cases "0 \<le> d")
    case True
    have "d * 0 \<le> d * k" "d * k \<le> d * 1"
      by (rule mult_left_mono[OF assms(1) True], rule mult_left_mono[OF assms(2) True])
    then have "fl (d * 0) \<le> fl (d * k)" "fl (d * k) \<le> fl (d * 1)" by (simp_all only: fl_mono)
    then have "y + fl (d * 0) \<le> y + fl (d * k)" "y + fl (d * k) \<le> y + fl (d * 1)" by simp_all
    then have "fl (y + fl (d * 0)) \<le> fl (y + fl (d * k))" "fl (y + fl (d * k)) \<le> fl (y + fl (d * 1))"
      by (simp_all only: fl_mono)
    then show ?thesis unfolding z fullBlend_def d_def[symmetric] by linarith
  next
    case False
    then have n: "d \<le> 0" by simp
    have "d * k \<le> d * 0" "d * 1 \<le> d * k"
      by (rule mult_left_mono_neg[OF assms(1) n], rule mult_left_mono_neg[OF assms(2) n])
    then have "fl (d * k) \<le> fl (d * 0)" "fl (d * 1) \<le> fl (d * k)" by (simp_all only: fl_mono)
    then have "y + fl (d * k) \<le> y + fl (d * 0)" "y + fl (d * 1) \<le> y + fl (d * k)" by simp_all
    then have "fl (y + fl (d * k)) \<le> fl (y + fl (d * 0))" "fl (y + fl (d * 1)) \<le> fl (y + fl (d * k))"
      by (simp_all only: fl_mono)
    then show ?thesis unfolding z fullBlend_def d_def[symmetric] by linarith
  qed
  from m show "min (fl y) (fullBlend y t) \<le> fl (y + fl (fl (t - y) * k))"
    by (simp add: d_def)
  from m show "fl (y + fl (fl (t - y) * k)) \<le> max (fl y) (fullBlend y t)"
    by (simp add: d_def)
qed

lemma fullBlend_error: "\<bar>fullBlend y t - t\<bar> \<le> roundingSlack (max \<bar>y\<bar> \<bar>t\<bar>)"
proof -
  define M where "M = max \<bar>y\<bar> \<bar>t\<bar>"
  define d where "d = fl (t - y)"
  define r where "r = fl (y + d)"
  have fb: "fullBlend y t = r" by (simp add: fullBlend_def r_def d_def fl_fl)
  have M: "\<bar>y\<bar> \<le> M" "\<bar>t\<bar> \<le> M" by (simp_all add: M_def)
  have e1: "\<bar>d - (t - y)\<bar> \<le> \<bar>t - y\<bar> / 2 ^ 53 + tiny" unfolding d_def by (rule fl_error)
  have e2: "\<bar>r - (y + d)\<bar> \<le> \<bar>y + d\<bar> / 2 ^ 53 + tiny" unfolding r_def by (rule fl_error)
  have A: "\<bar>t - y\<bar> \<le> 2 * M" using M by linarith
  have a1: "\<bar>d - (t - y)\<bar> \<le> 2 * M / 2 ^ 53 + tiny" using e1 A by simp
  have "\<bar>y + d\<bar> \<le> \<bar>t\<bar> + \<bar>d - (t - y)\<bar>" by linarith
  then have yd: "\<bar>y + d\<bar> \<le> M + 2 * M / 2 ^ 53 + tiny" using a1 M by linarith
  have "\<bar>y + d\<bar> / 2 ^ 53 \<le> (M + 2 * M / 2 ^ 53 + tiny) / 2 ^ 53"
    using yd by (intro divide_right_mono) simp_all
  then have "\<bar>r - (y + d)\<bar> \<le> (M + 2 * M / 2 ^ 53 + tiny) / 2 ^ 53 + tiny" using e2 by linarith
  moreover have "\<bar>r - t\<bar> \<le> \<bar>r - (y + d)\<bar> + \<bar>d - (t - y)\<bar>" by linarith
  moreover have "0 \<le> M" using M by linarith
  moreover note a1 tiny_pos
  ultimately have "\<bar>r - t\<bar> \<le> M / 2 ^ 51 + 4 * tiny"
    by (simp add: add_divide_distrib; linarith)
  then show ?thesis unfolding fb roundingSlack_def M_def[symmetric] four_tiny .
qed

section \<open>The two tilt filters\<close>

lemma clamp_bounds: "0 \<le> m \<Longrightarrow> \<bar>clamp v (- m) m\<bar> \<le> m"
  by (simp add: clamp_def max_def min_def abs_le_iff)

lemma clamp_hi: "0 \<le> m \<Longrightarrow> m \<le> v \<Longrightarrow> clamp v (- m) m = m"
  by (simp add: clamp_def)

lemma clamp_lo: "0 \<le> m \<Longrightarrow> v \<le> - m \<Longrightarrow> clamp v (- m) m = - m"
  by (simp add: clamp_def)

lemma clamp_0: "0 \<le> m \<Longrightarrow> clamp 0 (- m) m = 0"
  by (simp add: clamp_def)

lemma factor_bounds:
  assumes "0 \<le> delta" "0 \<le> d"
  shows "0 \<le> min 1 (fl (d * delta))" "min 1 (fl (d * delta)) \<le> 1"
  using assms fl_nonneg[of "d * delta"] by simp_all

lemma updateBlasterInertia_fields:
  "tiltY (updateBlasterInertia delta p bi) =
     fl (tiltY bi + fl (fl (fst (blasterTargets delta p bi) - tiltY bi)
                        * min 1 (fl (damping bi * delta))))"
  "tiltZ (updateBlasterInertia delta p bi) =
     fl (tiltZ bi + fl (fl (snd (blasterTargets delta p bi) - tiltZ bi)
                        * min 1 (fl (damping bi * delta))))"
  "maxTilt (updateBlasterInertia delta p bi) = maxTilt bi"
  "damping (updateBlasterInertia delta p bi) = damping bi"
  "sensitivity (updateBlasterInertia delta p bi) = sensitivity bi"
  "prevPos (updateBlasterInertia delta p bi) = p"
  by (simp_all add: updateBlasterInertia_def split: prod.splits)

lemma blasterTargets_bounds:
  assumes "0 \<le> maxTilt bi"
  shows "\<bar>fst (blasterTargets delta p bi)\<bar> \<le> maxTilt bi" "\<bar>snd (blasterTargets delta p bi)\<bar> \<le> maxTilt bi"
  using assms by (simp_all add: blasterTargets_def Let_def clamp_bounds)

lemma liquidTargets_bounds:
  assumes "0 \<le> maxTilt li"
  shows "case liquidTargets delta p li of (tx, ty, tz) \<Rightarrow>
           \<bar>tx\<bar> \<le> maxTilt li \<and> \<bar>ty\<bar> \<le> maxTilt li \<and> \<bar>tz\<bar> \<le> maxTilt li"
  using assms by (simp add: liquidTargets_def Let_def clamp_bounds)

lemma roundingSlack_nonneg: "0 \<le> M \<Longrightarrow> 0 \<le> roundingSlack M"
  by (simp add: roundingSlack_def)

lemma roundingSlack_mono: "M \<le> N \<Longrightarrow> roundingSlack M \<le> roundingSlack N"
  by (simp add: roundingSlack_def divide_right_mono)

lemma roundingSlack_twice:
  assumes "0 \<le> m"
  shows "roundingSlack (m + 2 * roundingSlack m) \<le> 2 * roundingSlack m"
proof -
  define t :: real where "t = 2 powr (- 1073)"
  have t: "0 < t" by (simp add: t_def)
  have "roundingSlack (m + 2 * roundingSlack m) = (m + 2 * (m / 2 ^ 51 + t)) / 2 ^ 51 + t"
    by (simp only: roundingSlack_def t_def)
  moreover have "2 * roundingSlack m = 2 * (m / 2 ^ 51 + t)"
    by (simp only: roundingSlack_def t_def)
  moreover have "(m + 2 * (m / 2 ^ 51 + t)) / 2 ^ 51 + t \<le> 2 * (m / 2 ^ 51 + t)"
    using assms t by (simp add: add_divide_distrib; linarith)
  ultimately show ?thesis by simp
qed

lemma blend_bound:
  assumes k: "0 \<le> k" "k \<le> 1" and m: "0 \<le> m" and d: "fl y = y"
    and y: "\<bar>y\<bar> \<le> m + 2 * roundingSlack m" and t: "\<bar>t\<bar> \<le> m"
  shows "\<bar>fl (y + fl (fl (t - y) * k))\<bar> \<le> m + 2 * roundingSlack m"
proof -
  have s: "0 \<le> roundingSlack m" using m by (rule roundingSlack_nonneg)
  have "max \<bar>y\<bar> \<bar>t\<bar> \<le> m + 2 * roundingSlack m" using y t s by simp
  then have "roundingSlack (max \<bar>y\<bar> \<bar>t\<bar>) \<le> roundingSlack (m + 2 * roundingSlack m)"
    by (rule roundingSlack_mono)
  then have "\<bar>fullBlend y t - t\<bar> \<le> 2 * roundingSlack m"
    using fullBlend_error[of y t] roundingSlack_twice[OF m] by linarith
  then have f: "\<bar>fullBlend y t\<bar> \<le> m + 2 * roundingSlack m" using t by linarith
  from blend_between[OF k, of y t] d f y show ?thesis by (simp add: abs_le_iff min_def max_def split: if_splits)
qed

lemma foldl_preserves:
  assumes "\<And>s x. f (g s x) = f s"
  shows "f (foldl g s xs) = f s"
  by (induction xs arbitrary: s) (simp_all add: assms)

lemma stepBullet_inertia:
  "blasterInertia (stepBullet delta b st) = blasterInertia st"
  "liquidSphereInertia (stepBullet delta b st) = liquidSphereInertia st"
  "blasterAttached (stepBullet delta b st) = blasterAttached st"
  by (cases "timeToLive b < 0"; simp add: stepBullet_expired stepBullet_live applyHits_fields applyHits_def)+

lemma stepBullets_inertia:
  "blasterInertia (stepBullets delta st) = blasterInertia st"
  "liquidSphereInertia (stepBullets delta st) = liquidSphereInertia st"
  "blasterAttached (stepBullets delta st) = blasterAttached st"
  unfolding stepBullets_def
  by (rule foldl_preserves, simp add: stepBullet_inertia)+

lemma tickerStep_inertia:
  "blasterInertia (tickerStep ev st) = blasterInertia st"
  "liquidSphereInertia (tickerStep ev st) = liquidSphereInertia st"
  "blasterAttached (tickerStep ev st) = blasterAttached st"
  by (cases ev; simp add: Let_def onComplete_def)+

lemma gsapTick_inertia:
  "blasterInertia (gsapTick evs st) = blasterInertia st"
  "liquidSphereInertia (gsapTick evs st) = liquidSphereInertia st"
  "blasterAttached (gsapTick evs st) = blasterAttached st"
  unfolding gsapTick_def
  by (rule foldl_preserves, simp add: tickerStep_inertia)+

lemma onTrigger_Inr: "\<exists>s. onTrigger c st = Inr s"
  by (simp add: onTrigger_def Let_def split: option.splits)

lemma onTrigger_inertia:
  assumes "onTrigger c st = Inr s"
  shows "blasterInertia s = blasterInertia st" "liquidSphereInertia s = liquidSphereInertia st"
    "blasterAttached s = blasterAttached st"
  using assms
  by (auto simp: onTrigger_def hapticPulse_def spawnBullet_def Let_def split: option.splits if_splits)

lemma handleController_Inr: "\<exists>s. handleController delta env st = Inr s"
  using onTrigger_Inr by (simp add: handleController_def Let_def split: option.splits)

lemma handleController_blasterInertia:
  assumes "handleController delta env st = Inr s"
  shows "blasterInertia s =
     (case controllersRight env of
        None \<Rightarrow> blasterInertia st
      | Some c \<Rightarrow> updateBlasterInertia delta (raySpacePosition c) (blasterInertia (attachBlaster c st)))"
  using assms
  by (auto simp: handleController_def updateBlaster_def Let_def dest: onTrigger_inertia
      split: option.splits if_splits)

lemma handleController_blasterAttached:
  assumes "handleController delta env st = Inr s"
  shows "blasterAttached s = (blasterAttached st \<or> controllersRight env \<noteq> None)"
  using assms
  by (auto simp: handleController_def updateBlaster_def attachBlaster_def Let_def
      dest: onTrigger_inertia split: option.splits if_splits)

lemma onFrame_Inr: "\<exists>s. onFrame delta time env st = Inr s"
  using handleController_Inr[of delta env "updateLiquid delta env st"]
  by (auto simp: onFrame_def)

lemma onFrame_frame: "onFrame delta time env st = Inr (frame delta time env st)"
  using onFrame_Inr[of delta time env st] by (auto simp: frame_def)

lemma onFrame_blasterInertia:
  assumes "onFrame delta time env st = Inr st'"
  shows "blasterInertia st' =
     (case controllersRight env of
        None \<Rightarrow> blasterInertia st
      | Some c \<Rightarrow> updateBlasterInertia delta (raySpacePosition c) (blasterInertia (attachBlaster c st)))"
proof -
  obtain s where s: "handleController delta env (updateLiquid delta env st) = Inr s"
    and st': "st' = gsapTick (tickerEvents env) (stepBullets delta s)"
    using assms by (auto simp: onFrame_def split: sum.splits)
  have "blasterInertia (attachBlaster c (updateLiquid delta env st)) = blasterInertia (attachBlaster c st)" for c
    by (simp add: attachBlaster_def updateLiquid_def Let_def)
  moreover have "blasterInertia (updateLiquid delta env st) = blasterInertia st"
    by (simp add: updateLiquid_def Let_def)
  ultimately show ?thesis
    using handleController_blasterInertia[OF s]
    by (simp add: st' gsapTick_inertia stepBullets_inertia split: option.splits)
qed

lemma frame_blasterAttached:
  "blasterAttached (frame delta time env st) = (blasterAttached st \<or> controllersRight env \<noteq> None)"
proof -
  obtain s where s: "handleController delta env (updateLiquid delta env st) = Inr s"
    using handleController_Inr by blast
  then have "frame delta time env st = gsapTick (tickerEvents env) (stepBullets delta s)"
    by (simp add: frame_def onFrame_def)
  moreover have "blasterAttached (updateLiquid delta env st) = blasterAttached st"
    by (simp add: updateLiquid_def Let_def)
  ultimately show ?thesis
    using handleController_blasterAttached[OF s]
    by (simp add: gsapTick_inertia stepBullets_inertia)
qed

lemma frame_liquid_no_controller:
  assumes "controllersRight env = None"
  shows "liquidSphereInertia (frame delta time env st)
       = updateLiquidInertia delta (cameraPosition env) (liquidSphereInertia st)"
  using assms
  by (simp add: frame_def onFrame_def handleController_def updateLiquid_def Let_def
      gsapTick_inertia stepBullets_inertia)

lemma attachBlaster_tilt:
  "tiltY (blasterInertia (attachBlaster c st)) = tiltY (blasterInertia st)"
  "tiltZ (blasterInertia (attachBlaster c st)) = tiltZ (blasterInertia st)"
  "maxTilt (blasterInertia (attachBlaster c st)) = maxTilt (blasterInertia st)"
  "damping (blasterInertia (attachBlaster c st)) = damping (blasterInertia st)"
  by (simp_all add: attachBlaster_def)

lemmas start_eval =
  startWorld_def setupScene_def initialWorld_def updateScoreDisplay_def sceneAdd_def

section \<open>Three frames, number by number\<close>

lemma fl_1: "fl 1 = 1"
  using fl_of_int[of 1] by simp

lemma fl_numeral: "numeral n < (2::int) ^ 53 \<Longrightarrow> fl (numeral n) = numeral n"
  using fl_of_int[of "numeral n"] by simp

lemma fl_half: "fl (1 / 2) = 1 / 2"
  using fl_dyadic_div[of 1 1] by simp

lemma fl_quarter: "fl (1 / 4) = 1 / 4"
  using fl_dyadic_div[of 1 2] by simp

lemma fl_eighth: "fl (1 / 8) = 1 / 8"
  using fl_dyadic_div[of 1 3] by simp

lemma maxTilt_12: "fl (12 / 100) = 8646911284551352 / 2 ^ 56"
  using fl_eval[where x="12 / 100" and k=56 and n=8646911284551352] by simp

lemma delta_16: "fl (16 / 1000) = 4611686018427388 / 2 ^ 58"
  using fl_eval[where x="16 / 1000" and k=58 and n=4611686018427388] by simp

lemma position_5: "fl (5 / 100) = 7205759403792794 / 2 ^ 57"
  using fl_eval[where x="5 / 100" and k=57 and n=7205759403792794] by simp

lemma fl_sixteenth: "fl (1 / 16) = 1 / 16"
  using fl_dyadic_div[of 1 4] by simp

lemma maxTilt_range:
  "1 / 16 \<le> fl (12 / 100)" "fl (12 / 100) \<le> 1 / 8" "1 / 8 \<le> fl (18 / 100)" "fl (18 / 100) \<le> 1 / 4"
proof -
  have "fl (1 / 16) \<le> fl (12 / 100)" "fl (12 / 100) \<le> fl (1 / 8)"
    "fl (1 / 8) \<le> fl (18 / 100)" "fl (18 / 100) \<le> fl (1 / 4)"
    by (rule fl_mono, simp)+
  then show "1 / 16 \<le> fl (12 / 100)" "fl (12 / 100) \<le> 1 / 8"
    "1 / 8 \<le> fl (18 / 100)" "fl (18 / 100) \<le> 1 / 4"
    unfolding fl_quarter fl_eighth fl_sixteenth by blast+
qed

lemma floor_delta: "fl (1 / 1000) \<le> 1 / 64"
  using fl_mono[of "1 / 1000" "1 / 64"] fl_dyadic_div[of 1 6] by simp

text \<open>The first frame: the blaster is attached and nothing moves.\<close>

lemma heldWorld_blaster:
  "blasterInertia heldWorld =
     \<lparr>prevPos = Vector3 0 0 0, tiltY = 0, tiltZ = 0, sensitivity = 5 / 2, damping = 8,
      maxTilt = fl (12 / 100)\<rparr>"
  "blasterAttached heldWorld"
proof -
  have m: "0 \<le> fl (3 / 25)" by (rule fl_nonneg) simp
  show "blasterInertia heldWorld =
     \<lparr>prevPos = Vector3 0 0 0, tiltY = 0, tiltZ = 0, sensitivity = 5 / 2, damping = 8,
      maxTilt = fl (12 / 100)\<rparr>"
    unfolding heldWorld_def
    using onFrame_blasterInertia[OF onFrame_frame, of "1 / 64" 0 holdEnv startWorld]
    by (simp add: holdEnv_def attachBlaster_def start_eval updateBlasterInertia_def
        blasterTargets_def sub_def divideScalar_def Let_def fl_0 clamp_0 m)
  show "blasterAttached heldWorld"
    by (simp add: heldWorld_def frame_blasterAttached holdEnv_def)
qed

text \<open>The second frame: both targets, the factor and the blended tilt.\<close>

lemma nudge_targets:
  "blasterTargets (fl (16 / 1000)) (Vector3 (fl (5 / 100)) 0 0) (blasterInertia heldWorld)
     = (- fl (12 / 100), 0)"
proof -
  have d: "max (fl (16 / 1000)) (fl (1 / 1000)) = fl (16 / 1000)"
    using fl_mono[of "1 / 1000" "16 / 1000"] by (simp add: max_absorb1)
  have "(32::real) \<le> 1 / fl (16 / 1000)" unfolding delta_16 by simp
  then have "fl 32 \<le> fl (1 / fl (16 / 1000))" by (rule fl_mono)
  then have r: "32 \<le> fl (1 / fl (16 / 1000))" by (simp add: fl_numeral)
  have "1 \<le> fl (5 / 100) * 32" unfolding position_5 by simp
  also have "\<dots> \<le> fl (5 / 100) * fl (1 / fl (16 / 1000))"
    using r fl_nonneg[of "5 / 100"] by (intro mult_left_mono) simp_all
  finally have "fl 1 \<le> fl (fl (5 / 100) * fl (1 / fl (16 / 1000)))" by (rule fl_mono)
  then have v: "1 \<le> fl (fl (5 / 100) * fl (1 / fl (16 / 1000)))" by (simp add: fl_1)
  then have "- fl (fl (5 / 100) * fl (1 / fl (16 / 1000))) * (5 / 2) \<le> - (1 / 8)" by simp
  then have "fl (- fl (fl (5 / 100) * fl (1 / fl (16 / 1000))) * (5 / 2)) \<le> fl (- (1 / 8))"
    by (rule fl_mono)
  then have t: "fl (- fl (fl (5 / 100) * fl (1 / fl (16 / 1000))) * (5 / 2)) \<le> - fl (12 / 100)"
    using maxTilt_range(2) by (simp add: fl_minus fl_eighth)
  have m: "0 \<le> fl (12 / 100)" by (rule fl_nonneg) simp
  have "blasterTargets (fl (16 / 1000)) (Vector3 (fl (5 / 100)) 0 0) (blasterInertia heldWorld)
      = (clamp (fl (- fl (fl (5 / 100) * fl (1 / fl (16 / 1000))) * (5 / 2)))
           (- fl (12 / 100)) (fl (12 / 100)),
         clamp 0 (- fl (12 / 100)) (fl (12 / 100)))"
    unfolding blasterTargets_def heldWorld_blaster sub_def divideScalar_def Let_def d
    by (simp add: fl_0 fl_fl)
  then show ?thesis by (simp only: clamp_lo[OF m t] clamp_0[OF m])
qed

lemma nudge_factor: "min 1 (fl (8 * fl (16 / 1000))) = 4611686018427388 / 2 ^ 55"
proof -
  have e: "8 * fl (16 / 1000) = of_int 4611686018427388 / 2 ^ 55" unfolding delta_16 by simp
  have "fl (8 * fl (16 / 1000)) = of_int 4611686018427388 / 2 ^ 55"
    unfolding e by (rule fl_dyadic_div) simp_all
  then have f: "fl (8 * fl (16 / 1000)) = 4611686018427388 / 2 ^ 55" by simp
  show ?thesis unfolding f by simp
qed

lemma nudge_tilt:
  "fl (0 + fl (fl (- fl (12 / 100) - 0) * (4611686018427388 / 2 ^ 55)))
     = - 8854437155380585 / 2 ^ 59"
proof -
  have a: "fl (- fl (12 / 100) - 0) = - (8646911284551352 / 2 ^ 56)"
    by (simp add: fl_minus fl_fl maxTilt_12[simplified])
  have b: "fl (- (8646911284551352 / 2 ^ 56) * (4611686018427388 / 2 ^ 55))
         = of_int (- 8854437155380585) / 2 ^ 59"
    by (rule fl_eval) simp_all
  have c: "fl (of_int (- 8854437155380585) / 2 ^ 59) = of_int (- 8854437155380585) / 2 ^ 59"
    by (rule fl_dyadic_div) simp_all
  show ?thesis unfolding a b using c by simp
qed

lemma nudgedWorld_blaster:
  "blasterInertia nudgedWorld =
     \<lparr>prevPos = Vector3 (fl (5 / 100)) 0 0, tiltY = - 8854437155380585 / 2 ^ 59, tiltZ = 0,
      sensitivity = 5 / 2, damping = 8, maxTilt = fl (12 / 100)\<rparr>"
  "blasterAttached nudgedWorld"
proof -
  have bi: "blasterInertia nudgedWorld
      = updateBlasterInertia (fl (16 / 1000)) (Vector3 (fl (5 / 100)) 0 0) (blasterInertia heldWorld)"
    unfolding nudgedWorld_def
    using onFrame_blasterInertia[OF onFrame_frame, of "fl (16 / 1000)" 0 nudgeEnv heldWorld]
      heldWorld_blaster(2)
    by (simp add: nudgeEnv_def attachBlaster_def)
  show "blasterInertia nudgedWorld =
     \<lparr>prevPos = Vector3 (fl (5 / 100)) 0 0, tiltY = - 8854437155380585 / 2 ^ 59, tiltZ = 0,
      sensitivity = 5 / 2, damping = 8, maxTilt = fl (12 / 100)\<rparr>"
    unfolding bi updateBlasterInertia_def nudge_targets prod.case
    unfolding heldWorld_blaster(1)
    apply (simp only: inertiaState.simps nudge_factor nudge_tilt)
    apply (simp add: fl_0)
    done
  show "blasterAttached nudgedWorld"
    by (simp add: nudgedWorld_def frame_blasterAttached nudgeEnv_def)
qed

text \<open>The third frame: the target is \<open>maxTilt\<close>, the factor is 1, the tilt passes the target.\<close>

lemma return_targets:
  "blasterTargets (1 / 8) (Vector3 0 0 0) (blasterInertia nudgedWorld) = (fl (12 / 100), 0)"
proof -
  have d: "max (1 / 8) (fl (1 / 1000)) = 1 / 8"
    using floor_delta by (simp add: max_absorb1)
  have r: "fl (1 / (1 / 8)) = 8" by (simp add: fl_numeral)
  have "fl (1 / 32) \<le> fl (5 / 100)" by (rule fl_mono) simp
  moreover have "fl (1 / 32) = 1 / 32" using fl_dyadic_div[of 1 5] by simp
  ultimately have "1 / 4 \<le> fl (5 / 100) * 8" by simp
  then have "fl (1 / 4) \<le> fl (fl (5 / 100) * 8)" by (rule fl_mono)
  then have "1 / 8 \<le> fl (fl (5 / 100) * 8) * (5 / 2)" by (simp add: fl_quarter)
  then have "fl (1 / 8) \<le> fl (fl (fl (5 / 100) * 8) * (5 / 2))" by (rule fl_mono)
  then have t: "fl (12 / 100) \<le> fl (- fl (- fl (5 / 100) * 8) * (5 / 2))"
    using maxTilt_range(2) by (simp add: fl_minus fl_eighth)
  have m: "0 \<le> fl (12 / 100)" by (rule fl_nonneg) simp
  have "blasterTargets (1 / 8) (Vector3 0 0 0) (blasterInertia nudgedWorld)
      = (clamp (fl (- fl (- fl (5 / 100) * 8) * (5 / 2))) (- fl (12 / 100)) (fl (12 / 100)),
         clamp 0 (- fl (12 / 100)) (fl (12 / 100)))"
    unfolding blasterTargets_def nudgedWorld_blaster sub_def divideScalar_def Let_def d r
    by (simp add: fl_0 fl_fl fl_minus)
  then show ?thesis by (simp only: clamp_hi[OF m t] clamp_0[OF m])
qed

lemma return_factor: "min 1 (fl (8 * (1 / 8))) = 1"
  by (simp add: fl_1)

lemma return_tilt:
  "fl (- 8854437155380585 / 2 ^ 59 + fl (fl (fl (12 / 100) - - 8854437155380585 / 2 ^ 59) * 1))
     = 8646911284551353 / 2 ^ 56"
proof -
  have a: "fl (8646911284551352 / 2 ^ 56 - - 8854437155380585 / 2 ^ 59)
         = of_int 4876857964486963 / 2 ^ 55"
    by (rule fl_eval) simp_all
  have b: "fl (of_int 4876857964486963 / 2 ^ 55 * 1) = of_int 4876857964486963 / 2 ^ 55"
    unfolding mult_1_right by (rule fl_dyadic_div) simp_all
  have c: "fl (- 8854437155380585 / 2 ^ 59 + of_int 4876857964486963 / 2 ^ 55)
         = of_int 8646911284551353 / 2 ^ 56"
    by (rule fl_eval) simp_all
  show ?thesis unfolding maxTilt_12 a b c by simp
qed

lemma returned_blaster:
  "blasterInertia (frame (1 / 8) 0 holdEnv nudgedWorld) =
     \<lparr>prevPos = Vector3 0 0 0, tiltY = 8646911284551353 / 2 ^ 56, tiltZ = 0,
      sensitivity = 5 / 2, damping = 8, maxTilt = fl (12 / 100)\<rparr>"
proof -
  have bi: "blasterInertia (frame (1 / 8) 0 holdEnv nudgedWorld)
      = updateBlasterInertia (1 / 8) (Vector3 0 0 0) (blasterInertia nudgedWorld)"
    using onFrame_blasterInertia[OF onFrame_frame, of "1 / 8" 0 holdEnv nudgedWorld]
      nudgedWorld_blaster(2)
    by (simp add: holdEnv_def attachBlaster_def)
  show ?thesis
    unfolding bi updateBlasterInertia_def return_targets prod.case
    unfolding nudgedWorld_blaster(1)
    apply (simp only: inertiaState.simps return_factor return_tilt)
    apply (simp add: fl_0)
    done
qed

text \<open>The first frame after the set up without a controller, the camera half a metre to the left.\<close>

lemma startWorld_liquid:
  "liquidSphereInertia startWorld =
     \<lparr>prevPos = Vector3 0 0 0, tiltY = 0, tiltZ = 0, sensitivity = 3, damping = 4,
      maxTilt = fl (18 / 100), tiltX = 0, velX = 0, velY = 0, velZ = 0, spring = 12\<rparr>"
  by (simp add: start_eval)

lemma headTurn_targets:
  "liquidTargets (1 / 2) (Vector3 (- 1 / 2) 0 0) (liquidSphereInertia startWorld)
     = (fl (18 / 100), fl (18 / 100), 0)"
proof -
  have d: "max (1 / 2) (fl (1 / 1000)) = 1 / 2"
    using floor_delta by (simp add: max_absorb1)
  have r: "fl (1 / (1 / 2)) = 2" by (simp add: fl_numeral)
  have v: "fl (fl (- 1 / 2 - 0) * 2) = - 1" by (simp add: fl_minus fl_half fl_1)
  have m: "0 \<le> fl (18 / 100)" by (rule fl_nonneg) simp
  have "fl (1 / 2) \<le> fl (8 / 10)" by (rule fl_mono) simp
  then have "1 / 4 \<le> 3 * fl (8 / 10)" by (simp add: fl_half)
  then have "fl (1 / 4) \<le> fl (3 * fl (8 / 10))" by (rule fl_mono)
  then have x: "fl (18 / 100) \<le> fl (fl (- (- 1) * 3) * fl (8 / 10))"
    using maxTilt_range(4) by (simp add: fl_quarter fl_numeral)
  have y: "fl (18 / 100) \<le> fl (- (- 1) * 3)"
    using maxTilt_range(4) by (simp add: fl_numeral)
  have "liquidTargets (1 / 2) (Vector3 (- 1 / 2) 0 0) (liquidSphereInertia startWorld)
      = (clamp (fl (fl (- (- 1) * 3) * fl (8 / 10))) (- fl (18 / 100)) (fl (18 / 100)),
         clamp (fl (- (- 1) * 3)) (- fl (18 / 100)) (fl (18 / 100)),
         clamp 0 (- fl (18 / 100)) (fl (18 / 100)))"
    unfolding liquidTargets_def startWorld_liquid sub_def divideScalar_def Let_def d r
    using v by (simp add: fl_0)
  then show ?thesis by (simp only: clamp_hi[OF m x] clamp_hi[OF m y] clamp_0[OF m])
qed

lemma headTurn_tiltX:
  "3 / 8 \<le> tiltX (liquidSphereInertia (frame (1 / 2) 0 headTurnEnv startWorld))"
proof -
  have li: "liquidSphereInertia (frame (1 / 2) 0 headTurnEnv startWorld)
      = updateLiquidInertia (1 / 2) (Vector3 (- 1 / 2) 0 0) (liquidSphereInertia startWorld)"
    using frame_liquid_no_controller[of headTurnEnv "1 / 2" 0 startWorld]
    by (simp add: headTurnEnv_def)
  have s: "fl (12 * (1 / 2)) = 6" "fl (4 * (1 / 2)) = 2" by (simp_all add: fl_numeral)
  have t: "tiltX (liquidSphereInertia (frame (1 / 2) 0 headTurnEnv startWorld))
      = fl (fl (fl (18 / 100) * 6) * (1 / 2))"
    unfolding li updateLiquidInertia_def headTurn_targets prod.case Let_def
    unfolding startWorld_liquid
    apply (simp only: liquidInertiaState.simps inertiaState.simps s)
    apply (simp add: fl_0 fl_fl)
    done
  have "fl (3 / 4) \<le> fl (fl (18 / 100) * 6)"
    using maxTilt_range(3) by (intro fl_mono) simp
  moreover have "fl (3 / 4) = 3 / 4" using fl_dyadic_div[of 3 2] by simp
  ultimately have "3 / 8 \<le> fl (fl (18 / 100) * 6) * (1 / 2)" by simp
  then have "fl (3 / 8) \<le> fl (fl (fl (18 / 100) * 6) * (1 / 2))" by (rule fl_mono)
  moreover have "fl (3 / 8) = 3 / 8" using fl_dyadic_div[of 3 3] by simp
  ultimately show ?thesis unfolding t by simp
qed

lemma headTurn_maxTilt:
  "maxTilt (liquidSphereInertia (frame (1 / 2) 0 headTurnEnv startWorld)) = fl (18 / 100)"
proof -
  have li: "liquidSphereInertia (frame (1 / 2) 0 headTurnEnv startWorld)
      = updateLiquidInertia (1 / 2) (Vector3 (- 1 / 2) 0 0) (liquidSphereInertia startWorld)"
    using frame_liquid_no_controller[of headTurnEnv "1 / 2" 0 startWorld]
    by (simp add: headTurnEnv_def)
  show ?thesis
    unfolding li by (simp add: updateLiquidInertia_def Let_def startWorld_liquid split: prod.splits)
qed

lemma frame_liquid_maxTilt:
  "maxTilt (liquidSphereInertia (frame delta time env st)) = maxTilt (liquidSphereInertia st)"
proof -
  obtain s where s: "handleController delta env (updateLiquid delta env st) = Inr s"
    using handleController_Inr by blast
  then have f: "frame delta time env st = gsapTick (tickerEvents env) (stepBullets delta s)"
    by (simp add: frame_def onFrame_def)
  have "maxTilt (liquidSphereInertia s) = maxTilt (liquidSphereInertia (updateLiquid delta env st))"
    using s
    by (auto simp: handleController_def updateBlaster_def attachBlaster_def Let_def
        dest: onTrigger_inertia split: option.splits if_splits)
  moreover have "maxTilt (liquidSphereInertia (updateLiquid delta env st)) = maxTilt (liquidSphereInertia st)"
    by (simp add: updateLiquid_def updateLiquidInertia_def Let_def split: prod.splits)
  ultimately show ?thesis by (simp add: f gsapTick_inertia stepBullets_inertia)
qed

text \<open>
  Claim C5, as amended. The blaster tilt after a frame is the low-pass blend of lines 240
  and 241, applied to the tilt before the frame (or the tilt before the frame itself, when
  no controller is held). In a frame with \<open>delta \<ge> 0\<close> (and the damping constant not
  negative, as its value 8 is), on both axes, the blended tilt lies between the previous
  tilt and the value that the blend gives with factor 1, inclusive; it is that value when
  \<open>damping * delta\<close> has reached 1. That value is the clamped target up to the three
  roundings of the blend: it is at most \<open>roundingSlack\<close> of the larger magnitude of tilt and
  target away from the target, on either side. The blended tilt is a binary64 number again.
\<close>

theorem blaster_tilt_between_previous_and_full_blend:
  assumes "0 \<le> delta" and "0 \<le> damping bi"
    and "fl (tiltY bi) = tiltY bi" and "fl (tiltZ bi) = tiltZ bi"
  shows "blasterInertia (frame delta time env st) =
           (case controllersRight env of
              None \<Rightarrow> blasterInertia st
            | Some c \<Rightarrow> updateBlasterInertia delta (raySpacePosition c)
                         (blasterInertia (attachBlaster c st)))
       \<and> tiltY (blasterInertia (attachBlaster c st)) = tiltY (blasterInertia st)
       \<and> tiltZ (blasterInertia (attachBlaster c st)) = tiltZ (blasterInertia st)
       \<and> min (tiltY bi) (fullBlend (tiltY bi) (fst (blasterTargets delta p bi)))
           \<le> tiltY (updateBlasterInertia delta p bi)
       \<and> tiltY (updateBlasterInertia delta p bi)
           \<le> max (tiltY bi) (fullBlend (tiltY bi) (fst (blasterTargets delta p bi)))
       \<and> \<bar>fullBlend (tiltY bi) (fst (blasterTargets delta p bi)) - fst (blasterTargets delta p bi)\<bar>
           \<le> roundingSlack (max \<bar>tiltY bi\<bar> \<bar>fst (blasterTargets delta p bi)\<bar>)
       \<and> min (tiltZ bi) (fullBlend (tiltZ bi) (snd (blasterTargets delta p bi)))
           \<le> tiltZ (updateBlasterInertia delta p bi)
       \<and> tiltZ (updateBlasterInertia delta p bi)
           \<le> max (tiltZ bi) (fullBlend (tiltZ bi) (snd (blasterTargets delta p bi)))
       \<and> \<bar>fullBlend (tiltZ bi) (snd (blasterTargets delta p bi)) - snd (blasterTargets delta p bi)\<bar>
           \<le> roundingSlack (max \<bar>tiltZ bi\<bar> \<bar>snd (blasterTargets delta p bi)\<bar>)
       \<and> (1 \<le> fl (damping bi * delta) \<longrightarrow>
            tiltY (updateBlasterInertia delta p bi)
              = fullBlend (tiltY bi) (fst (blasterTargets delta p bi))
            \<and> tiltZ (updateBlasterInertia delta p bi)
              = fullBlend (tiltZ bi) (snd (blasterTargets delta p bi)))
       \<and> fl (tiltY (updateBlasterInertia delta p bi)) = tiltY (updateBlasterInertia delta p bi)
       \<and> fl (tiltZ (updateBlasterInertia delta p bi)) = tiltZ (updateBlasterInertia delta p bi)"
proof -
  note k = factor_bounds[OF assms(1,2)]
  note blY = blend_between[OF k, of "tiltY bi" "fst (blasterTargets delta p bi)"]
  note blZ = blend_between[OF k, of "tiltZ bi" "snd (blasterTargets delta p bi)"]
  have full: "1 \<le> fl (damping bi * delta) \<Longrightarrow> min 1 (fl (damping bi * delta)) = 1"
    by simp
  show ?thesis
    using blY blZ onFrame_blasterInertia[OF onFrame_frame, of delta time env st] full
      fullBlend_error[of "tiltY bi" "fst (blasterTargets delta p bi)"]
      fullBlend_error[of "tiltZ bi" "snd (blasterTargets delta p bi)"]
    by (simp add: updateBlasterInertia_fields attachBlaster_tilt assms(3,4) fl_fl fullBlend_def)
qed

theorem blaster_tilt_between_previous_and_full_blend_witness:
  "(0::real) \<le> fl (16 / 1000) \<and> 0 \<le> damping (blasterInertia heldWorld)
   \<and> fl (tiltY (blasterInertia heldWorld)) = tiltY (blasterInertia heldWorld)
   \<and> fl (tiltZ (blasterInertia heldWorld)) = tiltZ (blasterInertia heldWorld)
   \<and> blasterInertia nudgedWorld
       = updateBlasterInertia (fl (16 / 1000)) (Vector3 (fl (5 / 100)) 0 0) (blasterInertia heldWorld)
   \<and> tiltY (blasterInertia heldWorld) = 0
   \<and> fst (blasterTargets (fl (16 / 1000)) (Vector3 (fl (5 / 100)) 0 0) (blasterInertia heldWorld))
       = - fl (12 / 100)
   \<and> fullBlend 0 (- fl (12 / 100)) = - fl (12 / 100)
   \<and> tiltY (blasterInertia nudgedWorld) = - 8854437155380585 / 2 ^ 59
   \<and> min 0 (fullBlend 0 (- fl (12 / 100))) \<le> tiltY (blasterInertia nudgedWorld)
   \<and> tiltY (blasterInertia nudgedWorld) \<le> max 0 (fullBlend 0 (- fl (12 / 100)))
   \<and> \<bar>fullBlend 0 (- fl (12 / 100)) - - fl (12 / 100)\<bar>
       \<le> roundingSlack (max \<bar>0\<bar> \<bar>- fl (12 / 100)\<bar>)"
proof -
  have pre: "(0::real) \<le> fl (16 / 1000)" "0 \<le> damping (blasterInertia heldWorld)"
    "fl (tiltY (blasterInertia heldWorld)) = tiltY (blasterInertia heldWorld)"
    "fl (tiltZ (blasterInertia heldWorld)) = tiltZ (blasterInertia heldWorld)"
    by (simp_all add: heldWorld_blaster fl_0 fl_nonneg)
  have att: "attachBlaster c heldWorld = heldWorld" for c
    by (simp add: attachBlaster_def heldWorld_blaster)
  have env: "controllersRight nudgeEnv
      = Some \<lparr>raySpacePosition = Vector3 (fl (5 / 100)) 0 0, triggerClick = False,
               hapticActuator = True, bulletPrototype = None\<rparr>"
    by (simp add: nudgeEnv_def)
  have vals: "tiltY (blasterInertia heldWorld) = 0"
    "fst (blasterTargets (fl (16 / 1000)) (Vector3 (fl (5 / 100)) 0 0) (blasterInertia heldWorld))
       = - fl (12 / 100)"
    "fullBlend 0 (- fl (12 / 100)) = - fl (12 / 100)"
    "tiltY (blasterInertia nudgedWorld) = - 8854437155380585 / 2 ^ 59"
    using nudge_targets
    by (simp_all add: heldWorld_blaster(1) nudgedWorld_blaster(1) fullBlend_def fl_minus fl_fl)
  note t = blaster_tilt_between_previous_and_full_blend
             [OF pre, of 0 nudgeEnv heldWorld _ "Vector3 (fl (5 / 100)) 0 0"]
  have 1: "blasterInertia nudgedWorld
       = updateBlasterInertia (fl (16 / 1000)) (Vector3 (fl (5 / 100)) 0 0) (blasterInertia heldWorld)"
    using t[THEN conjunct1] by (simp only: nudgedWorld_def env att option.case controller.simps)
  have 2: "min (tiltY (blasterInertia heldWorld))
       (fullBlend (tiltY (blasterInertia heldWorld))
          (fst (blasterTargets (fl (16 / 1000)) (Vector3 (fl (5 / 100)) 0 0) (blasterInertia heldWorld))))
      \<le> tiltY (updateBlasterInertia (fl (16 / 1000)) (Vector3 (fl (5 / 100)) 0 0) (blasterInertia heldWorld))"
    "tiltY (updateBlasterInertia (fl (16 / 1000)) (Vector3 (fl (5 / 100)) 0 0) (blasterInertia heldWorld))
      \<le> max (tiltY (blasterInertia heldWorld))
       (fullBlend (tiltY (blasterInertia heldWorld))
          (fst (blasterTargets (fl (16 / 1000)) (Vector3 (fl (5 / 100)) 0 0) (blasterInertia heldWorld))))"
    "\<bar>fullBlend (tiltY (blasterInertia heldWorld))
          (fst (blasterTargets (fl (16 / 1000)) (Vector3 (fl (5 / 100)) 0 0) (blasterInertia heldWorld)))
       - fst (blasterTargets (fl (16 / 1000)) (Vector3 (fl (5 / 100)) 0 0) (blasterInertia heldWorld))\<bar>
      \<le> roundingSlack (max \<bar>tiltY (blasterInertia heldWorld)\<bar>
           \<bar>fst (blasterTargets (fl (16 / 1000)) (Vector3 (fl (5 / 100)) 0 0) (blasterInertia heldWorld))\<bar>)"
    using t by blast+
  from 2 have 3: "min 0 (fullBlend 0 (- fl (12 / 100))) \<le> tiltY (blasterInertia nudgedWorld)"
    "tiltY (blasterInertia nudgedWorld) \<le> max 0 (fullBlend 0 (- fl (12 / 100)))"
    "\<bar>fullBlend 0 (- fl (12 / 100)) - - fl (12 / 100)\<bar>
       \<le> roundingSlack (max \<bar>0\<bar> \<bar>- fl (12 / 100)\<bar>)"
    unfolding 1[symmetric] vals(1,2) by blast+
  from pre 1 vals 3 show ?thesis by blast
qed

text \<open>
  Claim C5 as stated fails. After the three frames the controller is back where it
  started; in the third, \<open>damping * delta\<close> is 1, the target is \<open>maxTilt\<close>, the double next to
  0.12, and the tilt goes from about \<open>- 0.01536\<close> to the double after \<open>maxTilt\<close>: it has
  passed its target.
\<close>

theorem blaster_tilt_passes_its_target:
  "(0::real) \<le> 1 / 8
   \<and> blasterInertia (frame (1 / 8) 0 holdEnv nudgedWorld)
       = updateBlasterInertia (1 / 8) (Vector3 0 0 0) (blasterInertia nudgedWorld)
   \<and> tiltY (blasterInertia nudgedWorld) = - 8854437155380585 / 2 ^ 59
   \<and> fst (blasterTargets (1 / 8) (Vector3 0 0 0) (blasterInertia nudgedWorld))
       = 8646911284551352 / 2 ^ 56
   \<and> tiltY (blasterInertia (frame (1 / 8) 0 holdEnv nudgedWorld)) = 8646911284551353 / 2 ^ 56
   \<and> \<not> tiltY (blasterInertia (frame (1 / 8) 0 holdEnv nudgedWorld))
         \<le> max (tiltY (blasterInertia nudgedWorld))
               (fst (blasterTargets (1 / 8) (Vector3 0 0 0) (blasterInertia nudgedWorld)))"
proof -
  have bi: "blasterInertia (frame (1 / 8) 0 holdEnv nudgedWorld)
      = updateBlasterInertia (1 / 8) (Vector3 0 0 0) (blasterInertia nudgedWorld)"
    using onFrame_blasterInertia[OF onFrame_frame, of "1 / 8" 0 holdEnv nudgedWorld]
      nudgedWorld_blaster(2)
    by (simp add: holdEnv_def attachBlaster_def)
  have vals: "tiltY (blasterInertia nudgedWorld) = - 8854437155380585 / 2 ^ 59"
    "fst (blasterTargets (1 / 8) (Vector3 0 0 0) (blasterInertia nudgedWorld))
       = 8646911284551352 / 2 ^ 56"
    "tiltY (blasterInertia (frame (1 / 8) 0 holdEnv nudgedWorld)) = 8646911284551353 / 2 ^ 56"
    unfolding return_targets returned_blaster
    unfolding nudgedWorld_blaster(1) using maxTilt_12 by simp_all
  have "\<not> (8646911284551353 / 2 ^ 56 :: real)
          \<le> max (- 8854437155380585 / 2 ^ 59) (8646911284551352 / 2 ^ 56)"
    by simp
  then show ?thesis unfolding vals using bi by simp
qed

text \<open>
  Claim C2, as amended. In a frame with \<open>delta \<ge> 0\<close> (and the blaster's damping constant and
  both \<open>maxTilt\<close> not negative), whatever the positions are, the target tilts of both filters
  are within \<open>[- maxTilt, maxTilt]\<close>. The tilts of the blaster are binary64 numbers within
  \<open>maxTilt + 2 * roundingSlack maxTilt\<close> of zero after the frame if they were before it, and
  so after every frame of a run: the rounding of the blend can carry a tilt past \<open>maxTilt\<close>,
  by less than that. The tilts of the liquid are the spring's and are not clamped.
\<close>

theorem blaster_tilt_bounded_up_to_rounding_targets_clamped:
  assumes "0 \<le> delta" and "0 \<le> damping (blasterInertia st)"
    and "0 \<le> maxTilt (blasterInertia st)"
    and "fl (tiltY (blasterInertia st)) = tiltY (blasterInertia st)"
    and "fl (tiltZ (blasterInertia st)) = tiltZ (blasterInertia st)"
    and "\<bar>tiltY (blasterInertia st)\<bar>
           \<le> maxTilt (blasterInertia st) + 2 * roundingSlack (maxTilt (blasterInertia st))"
    and "\<bar>tiltZ (blasterInertia st)\<bar>
           \<le> maxTilt (blasterInertia st) + 2 * roundingSlack (maxTilt (blasterInertia st))"
    and "0 \<le> maxTilt (liquidSphereInertia st)"
  shows "onFrame delta time env st = Inr (frame delta time env st)
       \<and> maxTilt (blasterInertia (frame delta time env st)) = maxTilt (blasterInertia st)
       \<and> damping (blasterInertia (frame delta time env st)) = damping (blasterInertia st)
       \<and> maxTilt (liquidSphereInertia (frame delta time env st)) = maxTilt (liquidSphereInertia st)
       \<and> fl (tiltY (blasterInertia (frame delta time env st)))
           = tiltY (blasterInertia (frame delta time env st))
       \<and> fl (tiltZ (blasterInertia (frame delta time env st)))
           = tiltZ (blasterInertia (frame delta time env st))
       \<and> \<bar>tiltY (blasterInertia (frame delta time env st))\<bar>
           \<le> maxTilt (blasterInertia st) + 2 * roundingSlack (maxTilt (blasterInertia st))
       \<and> \<bar>tiltZ (blasterInertia (frame delta time env st))\<bar>
           \<le> maxTilt (blasterInertia st) + 2 * roundingSlack (maxTilt (blasterInertia st))
       \<and> \<bar>fst (blasterTargets delta currentPos (blasterInertia st))\<bar> \<le> maxTilt (blasterInertia st)
       \<and> \<bar>snd (blasterTargets delta currentPos (blasterInertia st))\<bar> \<le> maxTilt (blasterInertia st)
       \<and> (case liquidTargets delta refPos (liquidSphereInertia st) of (targetX, targetY, targetZ) \<Rightarrow>
            \<bar>targetX\<bar> \<le> maxTilt (liquidSphereInertia st)
            \<and> \<bar>targetY\<bar> \<le> maxTilt (liquidSphereInertia st)
            \<and> \<bar>targetZ\<bar> \<le> maxTilt (liquidSphereInertia st))"
proof -
  let ?st' = "frame delta time env st"
  let ?m = "maxTilt (blasterInertia st)"
  note fr = onFrame_frame[of delta time env st]
  note k = factor_bounds[OF assms(1,2)]
  have liquid: "case liquidTargets delta refPos (liquidSphereInertia st) of (targetX, targetY, targetZ) \<Rightarrow>
            \<bar>targetX\<bar> \<le> maxTilt (liquidSphereInertia st)
            \<and> \<bar>targetY\<bar> \<le> maxTilt (liquidSphereInertia st)
            \<and> \<bar>targetZ\<bar> \<le> maxTilt (liquidSphereInertia st)"
    using assms(8) by (rule liquidTargets_bounds)
  have blaster: "maxTilt (blasterInertia ?st') = ?m
       \<and> damping (blasterInertia ?st') = damping (blasterInertia st)
       \<and> fl (tiltY (blasterInertia ?st')) = tiltY (blasterInertia ?st')
       \<and> fl (tiltZ (blasterInertia ?st')) = tiltZ (blasterInertia ?st')
       \<and> \<bar>tiltY (blasterInertia ?st')\<bar> \<le> ?m + 2 * roundingSlack ?m
       \<and> \<bar>tiltZ (blasterInertia ?st')\<bar> \<le> ?m + 2 * roundingSlack ?m"
  proof (cases "controllersRight env")
    case None
    then show ?thesis using onFrame_blasterInertia[OF fr] assms(4-7) by simp
  next
    case (Some c)
    let ?bi = "blasterInertia (attachBlaster c st)"
    have bi: "tiltY ?bi = tiltY (blasterInertia st)" "tiltZ ?bi = tiltZ (blasterInertia st)"
      "maxTilt ?bi = ?m" "damping ?bi = damping (blasterInertia st)"
      by (rule attachBlaster_tilt)+
    have t: "\<bar>fst (blasterTargets delta (raySpacePosition c) ?bi)\<bar> \<le> ?m"
      "\<bar>snd (blasterTargets delta (raySpacePosition c) ?bi)\<bar> \<le> ?m"
      using blasterTargets_bounds[of ?bi delta "raySpacePosition c"] assms(3) by (simp_all add: bi)
    have "\<bar>tiltY (updateBlasterInertia delta (raySpacePosition c) ?bi)\<bar> \<le> ?m + 2 * roundingSlack ?m"
      unfolding updateBlasterInertia_fields bi
      by (rule blend_bound[OF k assms(3) assms(4) assms(6) t(1)])
    moreover have "\<bar>tiltZ (updateBlasterInertia delta (raySpacePosition c) ?bi)\<bar> \<le> ?m + 2 * roundingSlack ?m"
      unfolding updateBlasterInertia_fields bi
      by (rule blend_bound[OF k assms(3) assms(5) assms(7) t(2)])
    ultimately show ?thesis
      using onFrame_blasterInertia[OF fr] Some
      by (simp add: updateBlasterInertia_fields attachBlaster_tilt fl_fl)
  qed
  from fr blaster liquid blasterTargets_bounds[OF assms(3), of delta currentPos]
  show ?thesis by (simp add: frame_liquid_maxTilt)
qed

theorem blaster_tilt_bounded_up_to_rounding_targets_clamped_witness:
  "(0::real) \<le> 1 / 8 \<and> 0 \<le> damping (blasterInertia nudgedWorld)
   \<and> 0 \<le> maxTilt (blasterInertia nudgedWorld)
   \<and> fl (tiltY (blasterInertia nudgedWorld)) = tiltY (blasterInertia nudgedWorld)
   \<and> fl (tiltZ (blasterInertia nudgedWorld)) = tiltZ (blasterInertia nudgedWorld)
   \<and> \<bar>tiltY (blasterInertia nudgedWorld)\<bar>
       \<le> maxTilt (blasterInertia nudgedWorld) + 2 * roundingSlack (maxTilt (blasterInertia nudgedWorld))
   \<and> \<bar>tiltZ (blasterInertia nudgedWorld)\<bar>
       \<le> maxTilt (blasterInertia nudgedWorld) + 2 * roundingSlack (maxTilt (blasterInertia nudgedWorld))
   \<and> 0 \<le> maxTilt (liquidSphereInertia nudgedWorld)
   \<and> onFrame (1 / 8) 0 holdEnv nudgedWorld = Inr (frame (1 / 8) 0 holdEnv nudgedWorld)
   \<and> maxTilt (blasterInertia nudgedWorld) = 8646911284551352 / 2 ^ 56
   \<and> tiltY (blasterInertia (frame (1 / 8) 0 holdEnv nudgedWorld)) = 8646911284551353 / 2 ^ 56
   \<and> \<bar>tiltY (blasterInertia (frame (1 / 8) 0 holdEnv nudgedWorld))\<bar>
       \<le> maxTilt (blasterInertia nudgedWorld) + 2 * roundingSlack (maxTilt (blasterInertia nudgedWorld))
   \<and> \<bar>fst (blasterTargets (1 / 8) (Vector3 0 0 0) (blasterInertia nudgedWorld))\<bar>
       \<le> maxTilt (blasterInertia nudgedWorld)"
proof -
  have m: "maxTilt (blasterInertia nudgedWorld) = fl (12 / 100)"
    unfolding nudgedWorld_blaster(1) by simp
  have s: "0 \<le> roundingSlack (fl (12 / 100))"
    by (rule roundingSlack_nonneg, rule fl_nonneg) simp
  have y: "fl (of_int (- 8854437155380585) / 2 ^ 59) = of_int (- 8854437155380585) / 2 ^ 59"
    by (rule fl_dyadic_div) simp_all
  have li: "maxTilt (liquidSphereInertia nudgedWorld) = fl (18 / 100)"
    unfolding nudgedWorld_def heldWorld_def frame_liquid_maxTilt startWorld_liquid by simp
  have pre: "(0::real) \<le> 1 / 8" "0 \<le> damping (blasterInertia nudgedWorld)"
    "0 \<le> maxTilt (blasterInertia nudgedWorld)"
    "fl (tiltY (blasterInertia nudgedWorld)) = tiltY (blasterInertia nudgedWorld)"
    "fl (tiltZ (blasterInertia nudgedWorld)) = tiltZ (blasterInertia nudgedWorld)"
    "\<bar>tiltY (blasterInertia nudgedWorld)\<bar>
       \<le> maxTilt (blasterInertia nudgedWorld) + 2 * roundingSlack (maxTilt (blasterInertia nudgedWorld))"
    "\<bar>tiltZ (blasterInertia nudgedWorld)\<bar>
       \<le> maxTilt (blasterInertia nudgedWorld) + 2 * roundingSlack (maxTilt (blasterInertia nudgedWorld))"
    "0 \<le> maxTilt (liquidSphereInertia nudgedWorld)"
    unfolding li m
    using s y maxTilt_range(1) fl_nonneg[of "18 / 100"]
    by (simp_all add: nudgedWorld_blaster(1) fl_0)
  have vals: "maxTilt (blasterInertia nudgedWorld) = 8646911284551352 / 2 ^ 56"
    "tiltY (blasterInertia (frame (1 / 8) 0 holdEnv nudgedWorld)) = 8646911284551353 / 2 ^ 56"
    unfolding m returned_blaster using maxTilt_12 by simp_all
  note t = blaster_tilt_bounded_up_to_rounding_targets_clamped
             [OF pre, of 0 holdEnv "Vector3 0 0 0"]
  have 1: "onFrame (1 / 8) 0 holdEnv nudgedWorld = Inr (frame (1 / 8) 0 holdEnv nudgedWorld)"
    "\<bar>tiltY (blasterInertia (frame (1 / 8) 0 holdEnv nudgedWorld))\<bar>
       \<le> maxTilt (blasterInertia nudgedWorld) + 2 * roundingSlack (maxTilt (blasterInertia nudgedWorld))"
    "\<bar>fst (blasterTargets (1 / 8) (Vector3 0 0 0) (blasterInertia nudgedWorld))\<bar>
       \<le> maxTilt (blasterInertia nudgedWorld)"
    using t by blast+
  from pre vals 1 show ?thesis by blast
qed

text \<open>
  Claim C2 as stated fails, for both filters. In the first frame after the set up, half a
  second long, with the camera half a metre further left, the liquid's \<open>tiltX\<close> goes from 0
  to more than \<open>3 / 8\<close>, and its \<open>maxTilt\<close>, the double next to 0.18, is below \<open>1 / 4\<close>. In the
  third of the three frames the blaster's \<open>tiltY\<close> goes from about \<open>- 0.01536\<close> to the double
  after its \<open>maxTilt\<close>.
\<close>

theorem tilts_leave_bounds:
  "(0::real) \<le> 1 / 2
   \<and> \<bar>tiltX (liquidSphereInertia startWorld)\<bar> \<le> maxTilt (liquidSphereInertia startWorld)
   \<and> \<bar>tiltY (liquidSphereInertia startWorld)\<bar> \<le> maxTilt (liquidSphereInertia startWorld)
   \<and> \<bar>tiltZ (liquidSphereInertia startWorld)\<bar> \<le> maxTilt (liquidSphereInertia startWorld)
   \<and> onFrame (1 / 2) 0 headTurnEnv startWorld = Inr (frame (1 / 2) 0 headTurnEnv startWorld)
   \<and> 3 / 8 \<le> tiltX (liquidSphereInertia (frame (1 / 2) 0 headTurnEnv startWorld))
   \<and> maxTilt (liquidSphereInertia (frame (1 / 2) 0 headTurnEnv startWorld)) \<le> 1 / 4
   \<and> \<not> \<bar>tiltX (liquidSphereInertia (frame (1 / 2) 0 headTurnEnv startWorld))\<bar>
         \<le> maxTilt (liquidSphereInertia (frame (1 / 2) 0 headTurnEnv startWorld))
   \<and> (0::real) \<le> 1 / 8
   \<and> \<bar>tiltY (blasterInertia nudgedWorld)\<bar> \<le> maxTilt (blasterInertia nudgedWorld)
   \<and> \<bar>tiltZ (blasterInertia nudgedWorld)\<bar> \<le> maxTilt (blasterInertia nudgedWorld)
   \<and> onFrame (1 / 8) 0 holdEnv nudgedWorld = Inr (frame (1 / 8) 0 holdEnv nudgedWorld)
   \<and> tiltY (blasterInertia (frame (1 / 8) 0 holdEnv nudgedWorld)) = 8646911284551353 / 2 ^ 56
   \<and> maxTilt (blasterInertia (frame (1 / 8) 0 holdEnv nudgedWorld)) = 8646911284551352 / 2 ^ 56
   \<and> \<not> \<bar>tiltY (blasterInertia (frame (1 / 8) 0 holdEnv nudgedWorld))\<bar>
         \<le> maxTilt (blasterInertia (frame (1 / 8) 0 holdEnv nudgedWorld))"
proof -
  have l0: "\<bar>tiltX (liquidSphereInertia startWorld)\<bar> \<le> maxTilt (liquidSphereInertia startWorld)"
    "\<bar>tiltY (liquidSphereInertia startWorld)\<bar> \<le> maxTilt (liquidSphereInertia startWorld)"
    "\<bar>tiltZ (liquidSphereInertia startWorld)\<bar> \<le> maxTilt (liquidSphereInertia startWorld)"
    unfolding startWorld_liquid using fl_nonneg[of "18 / 100"] by simp_all
  have l1: "maxTilt (liquidSphereInertia (frame (1 / 2) 0 headTurnEnv startWorld)) \<le> 1 / 4"
    unfolding headTurn_maxTilt by (rule maxTilt_range(4))
  have l2: "\<not> \<bar>tiltX (liquidSphereInertia (frame (1 / 2) 0 headTurnEnv startWorld))\<bar>
         \<le> maxTilt (liquidSphereInertia (frame (1 / 2) 0 headTurnEnv startWorld))"
    using headTurn_tiltX l1 by linarith
  have b0: "\<bar>tiltY (blasterInertia nudgedWorld)\<bar> \<le> maxTilt (blasterInertia nudgedWorld)"
    "\<bar>tiltZ (blasterInertia nudgedWorld)\<bar> \<le> maxTilt (blasterInertia nudgedWorld)"
    unfolding nudgedWorld_blaster(1) using maxTilt_range(1) by simp_all
  have b1: "tiltY (blasterInertia (frame (1 / 8) 0 holdEnv nudgedWorld)) = 8646911284551353 / 2 ^ 56"
    "maxTilt (blasterInertia (frame (1 / 8) 0 holdEnv nudgedWorld)) = 8646911284551352 / 2 ^ 56"
    unfolding returned_blaster using maxTilt_12 by simp_all
  have b2: "\<not> \<bar>tiltY (blasterInertia (frame (1 / 8) 0 holdEnv nudgedWorld))\<bar>
         \<le> maxTilt (blasterInertia (frame (1 / 8) 0 holdEnv nudgedWorld))"
    unfolding b1 by simp
  have z: "(0::real) \<le> 1 / 2" "(0::real) \<le> 1 / 8" by simp_all
  from z l0 l1 l2 headTurn_tiltX b0 b1 b2
    onFrame_frame[of "1 / 2" 0 headTurnEnv startWorld] onFrame_frame[of "1 / 8" 0 holdEnv nudgedWorld]
  show ?thesis by blast
qed

lemmas frame_eval =
  frame_def onFrame_def handleController_def updateLiquid_def updateBlaster_def
  attachBlaster_def stepBullets_def gsapTick_def Let_def

section \<open>Evaluating concrete frames\<close>

lemmas bullet_eval =
  stepBullet_def hitTarget_def visibleTargets_def distanceTo_def distanceToSquared_def add_def
  sceneRemove_def advance_def hits_def inRange_def multiplyScalar_def Let_def

lemmas world_eval =
  rangeWorld_def staleWorld_def shrinkingWorld_def targetAt_def bulletAt_def idleEnv_def
  shrinkingEnv_def emptyHandedEnv_def emptyHandedController_def attachedWorld_def

section \<open>The trigger without a bullet template\<close>

lemma onTrigger_no_template:
  assumes "bulletPrototype c = None"
  shows "onTrigger c st =
     Inr (st\<lparr>effects := effects st @ (if hapticActuator c then [HapticPulse] else []) @ [LaserSound]\<rparr>)"
  using assms by (simp add: onTrigger_def hapticPulse_def Let_def)

text \<open>
  Claim C8. When the trigger is clicked and \<^verbatim>\<open>getObjectByName('bullet')\<close> finds no template,
  the trigger code returns normally, also when the haptic call throws: the state is the one
  before it but for the pulse (if there is an actuator) and the laser sound in the log. In
  the frame, the state that reaches the loop over the bullets has the registry and the scene
  of the state the frame started with, and \<open>onFrame\<close> returns a state, not an error.
\<close>

theorem trigger_without_template_spawns_nothing:
  assumes "controllersRight env = Some c" and "triggerClick c" and "bulletPrototype c = None"
  shows "onTrigger c st =
           Inr (st\<lparr>effects := effects st @ (if hapticActuator c then [HapticPulse] else [])
                                 @ [LaserSound]\<rparr>)
       \<and> (\<exists>s. handleController delta env (updateLiquid delta env st) = Inr s
              \<and> bullets s = bullets st \<and> scene s = scene st
              \<and> onFrame delta time env st = Inr (gsapTick (tickerEvents env) (stepBullets delta s)))"
proof -
  let ?st0 = "updateLiquid delta env st"
  let ?st1 = "updateBlaster delta c (attachBlaster c ?st0)"
  let ?s = "?st1\<lparr>effects := effects ?st1 @ (if hapticActuator c then [HapticPulse] else [])
                                 @ [LaserSound]\<rparr>"
  have h: "handleController delta env ?st0 = Inr ?s"
    using assms by (simp add: handleController_def Let_def onTrigger_no_template)
  have "bullets ?s = bullets st" "scene ?s = scene st"
    by (simp_all add: updateBlaster_def attachBlaster_def updateLiquid_def Let_def)
  moreover have "onFrame delta time env st = Inr (gsapTick (tickerEvents env) (stepBullets delta ?s))"
    by (simp add: onFrame_def h)
  ultimately show ?thesis
    using h onTrigger_no_template[OF assms(3)] by blast
qed

theorem trigger_without_template_spawns_nothing_witness:
  "controllersRight emptyHandedEnv = Some emptyHandedController
   \<and> triggerClick emptyHandedController
   \<and> bulletPrototype emptyHandedController = None
   \<and> onTrigger emptyHandedController attachedWorld = Inr (attachedWorld\<lparr>effects := [LaserSound]\<rparr>)
   \<and> onFrame (1 / 50) 0 emptyHandedEnv attachedWorld
       = Inr (frame (1 / 50) 0 emptyHandedEnv attachedWorld)
   \<and> bullets (frame (1 / 50) 0 emptyHandedEnv attachedWorld) = []
   \<and> scene (frame (1 / 50) 0 emptyHandedEnv attachedWorld) = [ScoreText]
   \<and> effects (frame (1 / 50) 0 emptyHandedEnv attachedWorld) = [LaserSound]"
proof -
  have pre: "controllersRight emptyHandedEnv = Some emptyHandedController"
    "triggerClick emptyHandedController" "bulletPrototype emptyHandedController = None"
    by (simp_all add: emptyHandedEnv_def emptyHandedController_def)
  have vals: "bullets (frame (1 / 50) 0 emptyHandedEnv attachedWorld) = []"
    "scene (frame (1 / 50) 0 emptyHandedEnv attachedWorld) = [ScoreText]"
    "effects (frame (1 / 50) 0 emptyHandedEnv attachedWorld) = [LaserSound]"
    "effects attachedWorld = []" "hapticActuator emptyHandedController = False"
    by (simp_all add: frame_eval onTrigger_def hapticPulse_def world_eval start_eval)
  from trigger_without_template_spawns_nothing[OF pre, of attachedWorld "1 / 50" 0] pre vals
  show ?thesis by (simp add: onFrame_frame)
qed

section \<open>One bullet in the loop\<close>

text \<open>
  Claim C10. The expiry branch takes the bullet out of the registry and out of the scene and
  changes nothing else: every other entry of the registry stays as it is and where it is,
  and the score, the text on display, the targets (position, scale and visibility), the
  tweens, the timers and the log are those of the state before.
\<close>

theorem expiry_changes_nothing_else:
  assumes "timeToLive b < 0"
  shows "bullets (stepBullet delta b st) = filter (\<lambda>(k, b'). uuid b \<noteq> k) (bullets st)
       \<and> scene (stepBullet delta b st) = remove1 (BulletChild (uuid b)) (scene st)
       \<and> stepBullet delta b st =
           st\<lparr>bullets := bullets (stepBullet delta b st), scene := scene (stepBullet delta b st)\<rparr>
       \<and> score (stepBullet delta b st) = score st
       \<and> scoreText (stepBullet delta b st) = scoreText st
       \<and> targets (stepBullet delta b st) = targets st
       \<and> tweens (stepBullet delta b st) = tweens st
       \<and> timeouts (stepBullet delta b st) = timeouts st
       \<and> effects (stepBullet delta b st) = effects st"
  using assms
  by (simp add: stepBullet_expired AList.delete_eq sceneRemove_def case_prod_unfold)

theorem expiry_changes_nothing_else_witness:
  "timeToLive (bulletAt ''b1'' (- 5) (- 1 / 100)) < 0
   \<and> bullets (stepBullet (1 / 8) (bulletAt ''b1'' (- 5) (- 1 / 100)) staleWorld)
       = [(''b2'', bulletAt ''b2'' (- 1) 1)]
   \<and> scene (stepBullet (1 / 8) (bulletAt ''b1'' (- 5) (- 1 / 100)) staleWorld)
       = [ScoreText, TargetChild 0, TargetChild 1, TargetChild 2, BulletChild ''b2'']
   \<and> score (stepBullet (1 / 8) (bulletAt ''b1'' (- 5) (- 1 / 100)) staleWorld) = 0
   \<and> scoreText (stepBullet (1 / 8) (bulletAt ''b1'' (- 5) (- 1 / 100)) staleWorld) = ''0000''
   \<and> targets (stepBullet (1 / 8) (bulletAt ''b1'' (- 5) (- 1 / 100)) staleWorld)
       = targets staleWorld
   \<and> tweens (stepBullet (1 / 8) (bulletAt ''b1'' (- 5) (- 1 / 100)) staleWorld) = []"
proof -
  have pre: "timeToLive (bulletAt ''b1'' (- 5) (- 1 / 100)) < 0"
    by (simp add: bulletAt_def)
  have vals: "bullets staleWorld = [(''b1'', bulletAt ''b1'' (- 5) (- 1 / 100)), (''b2'', bulletAt ''b2'' (- 1) 1)]"
    "scene staleWorld = [ScoreText, TargetChild 0, TargetChild 1, TargetChild 2,
                 BulletChild ''b1'', BulletChild ''b2'']"
    "score staleWorld = 0" "scoreText staleWorld = ''0000''" "tweens staleWorld = []"
    "uuid (bulletAt ''b1'' (- 5) (- 1 / 100)) = ''b1''"
    by (simp_all add: staleWorld_def start_eval bulletAt_def render_def toString_def
        padStart_natToString fourDigits_def digitChar_def)
  from expiry_changes_nothing_else[OF pre, of "1 / 8" staleWorld] pre vals
  show ?thesis by simp
qed





lemma set_hits:
  "set (hits st b) = {i. i < length (targets st) \<and> visible (targets st ! i) \<and> inRange st b i}"
  by (auto simp: hits_def visibleTargets_def)




lemma stepBullet_live_fields:
  assumes "0 \<le> timeToLive b"
  shows "score (stepBullet delta b st) = score st + 10 * int (length (hits st (advance delta b)))"
    "tweens (stepBullet delta b st) = tweens st @ map (\<lambda>i. (i, Shrink)) (hits st (advance delta b))"
    "targets (stepBullet delta b st) = targets st"
    "bullets (stepBullet delta b st) =
       (if hits st (advance delta b) = []
        then AList.map_entry (uuid b) (\<lambda>_. advance delta b) (bullets st)
        else AList.delete (uuid b) (AList.map_entry (uuid b) (\<lambda>_. advance delta b) (bullets st)))"
    "scene (stepBullet delta b st) =
       (sceneRemove (BulletChild (uuid b)) ^^ length (hits st (advance delta b))) (scene st)"
proof -
  have live: "\<not> timeToLive b < 0" using assms by simp
  have h: "hits (st\<lparr>bullets := AList.map_entry (uuid b) (\<lambda>_. advance delta b) (bullets st)\<rparr>) (advance delta b)
      = hits st (advance delta b)"
    by (rule hits_cong) simp
  show "score (stepBullet delta b st) = score st + 10 * int (length (hits st (advance delta b)))"
    "tweens (stepBullet delta b st) = tweens st @ map (\<lambda>i. (i, Shrink)) (hits st (advance delta b))"
    "targets (stepBullet delta b st) = targets st"
    "bullets (stepBullet delta b st) =
       (if hits st (advance delta b) = []
        then AList.map_entry (uuid b) (\<lambda>_. advance delta b) (bullets st)
        else AList.delete (uuid b) (AList.map_entry (uuid b) (\<lambda>_. advance delta b) (bullets st)))"
    "scene (stepBullet delta b st) =
       (sceneRemove (BulletChild (uuid b)) ^^ length (hits st (advance delta b))) (scene st)"
    by (simp_all add: stepBullet_live[OF live] applyHits_fields h advance_simps)
qed


section \<open>The loop over the bullets\<close>

lemma set_bulletChildren: "set (bulletChildren cs) = {k. BulletChild k \<in> set cs}"
  by (induction cs rule: bulletChildren.induct) auto

lemma distinct_funpow_remove1:
  "distinct xs \<Longrightarrow> (remove1 x ^^ Suc n) xs = remove1 x xs"
  by (induction n) (simp_all add: remove1_idem)

lemma delete_map_entry_same: "AList.delete k (AList.map_entry k f xs) = AList.delete k xs"
  by (induction xs) auto

lemma delete_map_entry_other:
  "k \<noteq> k' \<Longrightarrow> AList.delete k (AList.map_entry k' f xs) = AList.map_entry k' f (AList.delete k xs)"
  by (induction xs) auto

lemma survives_cong: "targets st' = targets st \<Longrightarrow> survives delta st' b = survives delta st b"
  using hits_cong[of st' st] by (simp add: survives_def)

lemma stepBullet_survivor:
  assumes "survives delta st b"
  shows "stepBullet delta b st
           = st\<lparr>bullets := AList.map_entry (uuid b) (\<lambda>_. advance delta b) (bullets st)\<rparr>"
proof -
  from assms have "\<not> timeToLive b < 0" "hits st (advance delta b) = []"
    by (simp_all add: survives_def)
  moreover have "hits (st\<lparr>bullets := AList.map_entry (uuid b) (\<lambda>_. advance delta b) (bullets st)\<rparr>)
      (advance delta b) = hits st (advance delta b)"
    by (rule hits_cong) simp
  ultimately show ?thesis by (simp add: stepBullet_live applyHits_Nil)
qed

lemma stepBullet_casualty:
  assumes "\<not> survives delta st b"
  shows "bullets (stepBullet delta b st) = AList.delete (uuid b) (bullets st)"
    and "distinct (scene st) \<Longrightarrow>
           scene (stepBullet delta b st) = remove1 (BulletChild (uuid b)) (scene st)"
proof -
  show "bullets (stepBullet delta b st) = AList.delete (uuid b) (bullets st)"
  proof (cases "timeToLive b < 0")
    case True
    then show ?thesis by (simp add: stepBullet_expired)
  next
    case False
    then have "hits st (advance delta b) \<noteq> []" using assms by (simp add: survives_def)
    with False show ?thesis
      by (simp add: stepBullet_live_fields delete_map_entry_same)
  qed
  show "scene (stepBullet delta b st) = remove1 (BulletChild (uuid b)) (scene st)"
    if d: "distinct (scene st)"
  proof (cases "timeToLive b < 0")
    case True
    then show ?thesis by (simp add: stepBullet_expired sceneRemove_def)
  next
    case False
    then have "hits st (advance delta b) \<noteq> []" using assms by (simp add: survives_def)
    then obtain n where "length (hits st (advance delta b)) = Suc n"
      by (cases "hits st (advance delta b)") auto
    with False d show ?thesis
      using distinct_funpow_remove1[where xs="scene st" and x="BulletChild (uuid b)" and n=n]
      by (simp add: stepBullet_live_fields sceneRemove_def[abs_def])
  qed
qed

lemma map_entry_keeps_uuid:
  assumes "list_all (\<lambda>(k, b). uuid b = k) xs"
  shows "list_all (\<lambda>(k, b). uuid b = k) (AList.map_entry (uuid b0) (\<lambda>_. advance delta b0) xs)"
  using assms by (induction xs) (auto simp: advance_simps)

lemma delete_keeps_uuid:
  assumes "list_all (\<lambda>(k, b). uuid b = k) xs"
  shows "list_all (\<lambda>(k, b). uuid b = k) (AList.delete k0 xs)"
  using assms by (induction xs) auto

lemma registryOk_stepBullet:
  assumes "registryOk st"
  shows "registryOk (stepBullet delta b st)"
proof (cases "survives delta st b")
  case True
  with assms show ?thesis
    by (simp add: stepBullet_survivor registryOk_def AList.distinct_map_entry
        AList.dom_map_entry map_entry_keeps_uuid)
next
  case False
  from assms have d: "distinct (scene st)" by (simp add: registryOk_def)
  have keys: "fst ` set (AList.delete (uuid b) (bullets st)) = fst ` set (bullets st) - {uuid b}"
    by (auto simp: AList.delete_eq)
  have sc: "set (bulletChildren (remove1 (BulletChild (uuid b)) (scene st)))
             = set (bulletChildren (scene st)) - {uuid b}"
    using d by (auto simp: set_bulletChildren)
  from assms show ?thesis
    unfolding registryOk_def stepBullet_casualty(1)[OF False] stepBullet_casualty(2)[OF False d]
    by (simp add: AList.distinct_delete delete_keeps_uuid keys sc)
qed

lemma map_of_stepBullet:
  "map_of (bullets (stepBullet delta b st)) =
     (map_of (bullets st))
       (uuid b := if survives delta st b \<and> uuid b \<in> fst ` set (bullets st)
                  then Some (advance delta b) else None)"
proof (cases "survives delta st b")
  case True
  show ?thesis
    by (rule ext)
       (auto simp: stepBullet_survivor[OF True] True AList.map_of_map_entry
          dom_map_of_conv_image_fst[symmetric] split: option.splits)
next
  case False
  then show ?thesis
    by (simp add: stepBullet_casualty(1) AList.delete_conv')
qed

lemma foldl_stepBullet_targets:
  "targets (foldl (\<lambda>s b. stepBullet delta b s) st bs) = targets st"
  by (rule foldl_preserves) (simp add: stepBullet_targets)

lemma foldl_stepBullet_registryOk:
  "registryOk st \<Longrightarrow> registryOk (foldl (\<lambda>s b. stepBullet delta b s) st bs)"
  by (induction bs arbitrary: st) (simp_all add: registryOk_stepBullet)

lemma foldl_stepBullet_others:
  assumes "k \<notin> uuid ` set bs"
  shows "map_of (bullets (foldl (\<lambda>s b. stepBullet delta b s) st bs)) k = map_of (bullets st) k"
  using assms by (induction bs arbitrary: st) (simp_all add: map_of_stepBullet)

lemma foldl_stepBullet_own:
  assumes "distinct (map uuid bs)" "b \<in> set bs"
  shows "map_of (bullets (foldl (\<lambda>s b. stepBullet delta b s) st bs)) (uuid b) =
     (if survives delta st b \<and> uuid b \<in> fst ` set (bullets st)
      then Some (advance delta b) else None)"
  using assms
proof (induction bs arbitrary: st)
  case Nil
  then show ?case by simp
next
  case (Cons a bs)
  show ?case
  proof (cases "b = a")
    case True
    with Cons.prems have "uuid b \<notin> uuid ` set bs" by auto
    then show ?thesis
      using True by (simp add: foldl_stepBullet_others map_of_stepBullet)
  next
    case False
    with Cons.prems have mem: "b \<in> set bs" and d: "distinct (map uuid bs)"
      and na: "uuid a \<notin> uuid ` set bs"
      by auto
    from mem na have ne: "uuid b \<noteq> uuid a" by (metis imageI)
    have "uuid b \<in> fst ` set (bullets (stepBullet delta a st)) \<longleftrightarrow> uuid b \<in> fst ` set (bullets st)"
      using ne by (simp add: dom_map_of_conv_image_fst[symmetric] map_of_stepBullet domIff)
    moreover have "survives delta (stepBullet delta a st) b = survives delta st b"
      by (rule survives_cong) (simp add: stepBullet_targets)
    ultimately show ?thesis
      using Cons.IH[OF d mem, of "stepBullet delta a st"] by simp
  qed
qed

lemma uuid_keys:
  "list_all (\<lambda>(k, b). uuid b = k) xs \<Longrightarrow> map uuid (map snd xs) = map fst xs"
  by (induction xs) auto

lemma registry_snapshot:
  assumes "registryOk st"
  shows "map uuid (map snd (bullets st)) = map fst (bullets st)"
    and "distinct (map uuid (map snd (bullets st)))"
    and "uuid ` set (map snd (bullets st)) = fst ` set (bullets st)"
proof -
  from assms have "list_all (\<lambda>(k, b). uuid b = k) (bullets st)" by (simp add: registryOk_def)
  then show e: "map uuid (map snd (bullets st)) = map fst (bullets st)"
    by (rule uuid_keys)
  from assms show "distinct (map uuid (map snd (bullets st)))"
    unfolding e by (simp add: registryOk_def)
  have "set (map uuid (map snd (bullets st))) = set (map fst (bullets st))"
    by (simp only: e)
  then show "uuid ` set (map snd (bullets st)) = fst ` set (bullets st)"
    by (simp only: set_map)
qed

lemma registry_entry:
  assumes "registryOk st" "(k, b) \<in> set (bullets st)"
  shows "uuid b = k" "b \<in> set (map snd (bullets st))" "k \<in> fst ` set (bullets st)"
proof -
  from assms(1) have "list_all (\<lambda>(k, b). uuid b = k) (bullets st)" by (simp add: registryOk_def)
  with assms(2) show "uuid b = k" by (auto simp: list_all_iff)
  from assms(2) show "b \<in> set (map snd (bullets st))" by force
  from assms(2) show "k \<in> fst ` set (bullets st)" by force
qed

lemma loop_registry:
  assumes "registryOk st" and "(k, b) \<in> set (bullets st)"
  shows "(k \<in> fst ` set (bullets (stepBullets delta st)) \<longleftrightarrow> survives delta st b)
       \<and> (survives delta st b \<longrightarrow>
            map_of (bullets (stepBullets delta st)) k = Some (advance delta b))
       \<and> (BulletChild k \<in> set (scene (stepBullets delta st))
            \<longleftrightarrow> k \<in> fst ` set (bullets (stepBullets delta st)))
       \<and> fst ` set (bullets (stepBullets delta st)) \<subseteq> fst ` set (bullets st)
       \<and> registryOk (stepBullets delta st)"
proof -
  let ?st' = "stepBullets delta st"
  note e = registry_entry[OF assms]
  have own: "map_of (bullets ?st') k = (if survives delta st b then Some (advance delta b) else None)"
    using foldl_stepBullet_own[OF registry_snapshot(2)[OF assms(1)] e(2), of delta st] e(1,3)
    by (simp add: stepBullets_def)
  have ok: "registryOk ?st'"
    unfolding stepBullets_def by (rule foldl_stepBullet_registryOk[OF assms(1)])
  have keys: "k \<in> fst ` set (bullets ?st') \<longleftrightarrow> survives delta st b"
    using own by (simp add: dom_map_of_conv_image_fst[symmetric] domIff)
  have scene: "BulletChild k \<in> set (scene ?st') \<longleftrightarrow> k \<in> fst ` set (bullets ?st')"
    using ok by (auto simp: registryOk_def set_bulletChildren)
  have sub: "fst ` set (bullets ?st') \<subseteq> fst ` set (bullets st)"
  proof
    fix k' assume k': "k' \<in> fst ` set (bullets ?st')"
    show "k' \<in> fst ` set (bullets st)"
    proof (rule ccontr)
      assume n: "k' \<notin> fst ` set (bullets st)"
      then have "k' \<notin> uuid ` set (map snd (bullets st))"
        by (simp only: registry_snapshot(3)[OF assms(1)] not_False_eq_True)
      then have "map_of (bullets ?st') k' = map_of (bullets st) k'"
        unfolding stepBullets_def by (rule foldl_stepBullet_others)
      with n k' show False
        by (simp add: dom_map_of_conv_image_fst[symmetric] domIff)
    qed
  qed
  from keys own scene sub ok show ?thesis by simp
qed

lemma tickerStep_registry:
  "bullets (tickerStep ev st) = bullets st" "scene (tickerStep ev st) = scene st"
  "score (tickerStep ev st) = score st"
  by (cases ev; simp add: Let_def onComplete_def)+

lemma gsapTick_registry:
  "bullets (gsapTick evs st) = bullets st" "scene (gsapTick evs st) = scene st"
  "score (gsapTick evs st) = score st"
  unfolding gsapTick_def
  by (rule foldl_preserves, simp add: tickerStep_registry)+

lemma registryOk_cong:
  "bullets st' = bullets st \<Longrightarrow> scene st' = scene st \<Longrightarrow> registryOk st' = registryOk st"
  by (simp add: registryOk_def)

lemma update_keeps_uuid:
  assumes "list_all (\<lambda>(k, b). uuid b = k) xs" "uuid v = k0"
  shows "list_all (\<lambda>(k, b). uuid b = k) (AList.update k0 v xs)"
  using assms by (induction xs) auto

lemma sceneAdd_distinct: "distinct cs \<Longrightarrow> distinct (sceneAdd c cs)"
  by (simp add: sceneAdd_def)

lemma sceneAdd_bulletChildren:
  assumes "distinct cs"
  shows "set (bulletChildren (sceneAdd c cs)) =
     (case c of BulletChild k \<Rightarrow> insert k (set (bulletChildren cs)) | _ \<Rightarrow> set (bulletChildren cs))"
  using assms by (cases c) (auto simp: sceneAdd_def set_bulletChildren)

lemma registryOk_spawnBullet:
  assumes "registryOk st"
  shows "registryOk (spawnBullet p st)"
  using assms
  by (simp add: registryOk_def spawnBullet_def Let_def AList.distinct_update update_keeps_uuid
      sceneAdd_distinct sceneAdd_bulletChildren AList.dom_update)

lemma registryOk_onTrigger:
  assumes "registryOk st" "onTrigger c st = Inr s"
  shows "registryOk s"
proof -
  let ?st2 = "st\<lparr>effects := effects st @ (if hapticActuator c then [HapticPulse] else []) @ [LaserSound]\<rparr>"
  have ok2: "registryOk ?st2" using assms(1) by (simp add: registryOk_def)
  have "s = (case bulletPrototype c of Some p \<Rightarrow> spawnBullet p ?st2 | None \<Rightarrow> ?st2)"
    using assms(2) by (auto simp: onTrigger_def hapticPulse_def Let_def split: option.splits)
  with ok2 show ?thesis by (auto split: option.splits intro: registryOk_spawnBullet)
qed

lemma registryOk_handleController:
  assumes "registryOk st" "handleController delta env st = Inr s"
  shows "registryOk s"
proof (cases "controllersRight env")
  case None
  with assms show ?thesis by (simp add: handleController_def)
next
  case (Some c)
  let ?st1 = "updateBlaster delta c (attachBlaster c st)"
  have ok1: "registryOk ?st1"
    using assms(1) by (simp add: registryOk_def updateBlaster_def attachBlaster_def Let_def)
  show ?thesis
  proof (cases "triggerClick c")
    case True
    with Some assms(2) have "onTrigger c ?st1 = Inr s" by (simp add: handleController_def Let_def)
    with ok1 show ?thesis by (rule registryOk_onTrigger)
  next
    case False
    with Some assms(2) ok1 show ?thesis by (simp add: handleController_def Let_def)
  qed
qed

lemma frame_unfold:
  "\<exists>s. handleController delta env (updateLiquid delta env st) = Inr s
       \<and> frame delta time env st = gsapTick (tickerEvents env) (stepBullets delta s)"
  using handleController_Inr[of delta env "updateLiquid delta env st"]
  by (auto simp: frame_def onFrame_def)

lemma registryOk_stepBullets: "registryOk st \<Longrightarrow> registryOk (stepBullets delta st)"
  unfolding stepBullets_def by (rule foldl_stepBullet_registryOk)

lemma registryOk_frame:
  assumes "registryOk st"
  shows "registryOk (frame delta time env st)"
proof -
  obtain s where s: "handleController delta env (updateLiquid delta env st) = Inr s"
    and f: "frame delta time env st = gsapTick (tickerEvents env) (stepBullets delta s)"
    using frame_unfold by blast
  have "registryOk (updateLiquid delta env st)"
    using assms by (simp add: registryOk_def updateLiquid_def Let_def)
  then have "registryOk s" using s by (rule registryOk_handleController)
  then have "registryOk (stepBullets delta s)" by (rule registryOk_stepBullets)
  then show ?thesis
    unfolding f by (simp add: registryOk_cong[OF gsapTick_registry(1,2)])
qed

lemma registryOk_pushTarget: "registryOk st \<Longrightarrow> registryOk (pushTarget model i draw st)"
  by (cases draw)
     (simp add: registryOk_def pushTarget_def Let_def sceneAdd_distinct sceneAdd_bulletChildren)

lemma registryOk_targetsLoaded: "registryOk st \<Longrightarrow> registryOk (targetsLoaded model draws st)"
  by (simp add: targetsLoaded_def registryOk_pushTarget)

lemma registryOk_step:
  assumes "registryOk st"
  shows "registryOk (step ev st)"
proof (cases ev)
  case (Frame delta time env)
  with assms show ?thesis by (simp add: registryOk_frame)
next
  case StationLoaded
  with assms show ?thesis
    by (simp add: stationLoaded_def registryOk_def sceneAdd_distinct sceneAdd_bulletChildren)
next
  case (TargetsLoaded model draws)
  with assms show ?thesis by (simp add: registryOk_targetsLoaded)
next
  case (Timeout i r1 r2)
  with assms show ?thesis by (simp add: onTimeout_def registryOk_def Let_def)
qed

lemma registryOk_run: "registryOk st \<Longrightarrow> registryOk (run evs st)"
  unfolding run_def by (induction evs arbitrary: st) (simp_all add: registryOk_step)

lemma registryOk_startWorld: "registryOk (setupScene p initialWorld)"
  by (simp add: registryOk_def setupScene_def initialWorld_def updateScoreDisplay_def sceneAdd_def)

lemma removeBullet_fields:
  "targets (removeBullet k st) = targets st"
  "bullets (removeBullet k st) = AList.delete k (bullets st)"
  "scene (removeBullet k st) = remove1 (BulletChild k) (scene st)"
  by (simp_all add: removeBullet_def sceneRemove_def)

lemma funpow_remove1_commute:
  "(remove1 x ^^ n) (remove1 y xs) = remove1 y ((remove1 x ^^ n) xs)"
  by (induction n) (simp_all add: remove1_commute)

lemma applyHits_removeBullet:
  "applyHits b hs (removeBullet k st) = removeBullet k (applyHits b hs st)"
  by (simp add: applyHits_def removeBullet_def sceneRemove_def[abs_def] AList.delete_twist
      funpow_remove1_commute)

lemma stepBullet_removeBullet:
  assumes "uuid b \<noteq> k"
  shows "stepBullet delta b (removeBullet k st) = removeBullet k (stepBullet delta b st)"
proof (cases "timeToLive b < 0")
  case True
  then show ?thesis
    by (simp add: stepBullet_expired removeBullet_def sceneRemove_def AList.delete_twist
        remove1_commute)
next
  case False
  have h: "hits (removeBullet k st) (advance delta b) = hits st (advance delta b)"
    by (rule hits_cong) (simp add: removeBullet_fields)
  have e: "(removeBullet k st)\<lparr>bullets := AList.map_entry (uuid b) (\<lambda>_. advance delta b)
                                       (bullets (removeBullet k st))\<rparr>
         = removeBullet k (st\<lparr>bullets := AList.map_entry (uuid b) (\<lambda>_. advance delta b) (bullets st)\<rparr>)"
    using assms by (simp add: removeBullet_def delete_map_entry_other[symmetric])
  show ?thesis
    by (simp only: stepBullet_live[OF False] h e applyHits_removeBullet)
qed

lemma foldl_stepBullet_removeBullet:
  assumes "k \<notin> uuid ` set bs"
  shows "foldl (\<lambda>s b. stepBullet delta b s) (removeBullet k st) bs
       = removeBullet k (foldl (\<lambda>s b. stepBullet delta b s) st bs)"
  using assms
proof (induction bs arbitrary: st)
  case Nil
  show ?case by simp
next
  case (Cons a bs)
  then have "uuid a \<noteq> k" "k \<notin> uuid ` set bs" by auto
  with Cons.IH[of "stepBullet delta a st"] show ?case
    by (simp add: stepBullet_removeBullet)
qed

lemma split_registry:
  assumes "distinct (map fst xs)" "(k, b) \<in> set xs"
  shows "\<exists>ys zs. xs = ys @ (k, b) # zs \<and> k \<notin> fst ` set ys \<and> k \<notin> fst ` set zs"
proof -
  from assms(2) obtain ys zs where xs: "xs = ys @ (k, b) # zs" by (auto simp: in_set_conv_decomp)
  with assms(1) have "k \<notin> fst ` set ys \<and> k \<notin> fst ` set zs" by auto
  with xs show ?thesis by blast
qed

lemma expired_bullet_skipped:
  assumes "registryOk st" "(k, b) \<in> set (bullets st)" "timeToLive b < 0"
  shows "stepBullets delta st = stepBullets delta (removeBullet k st)"
proof -
  from assms(1) have d: "distinct (map fst (bullets st))"
    and u: "list_all (\<lambda>(k, b). uuid b = k) (bullets st)" by (simp_all add: registryOk_def)
  from split_registry[OF d assms(2)] obtain ys zs
    where xs: "bullets st = ys @ (k, b) # zs" and ny: "k \<notin> fst ` set ys" and nz: "k \<notin> fst ` set zs"
    by blast
  have ub: "uuid b = k" using registry_entry(1)[OF assms(1,2)] .
  from u xs have uy: "list_all (\<lambda>(k, b). uuid b = k) ys" by simp
  have ky: "k \<notin> uuid ` set (map snd ys)"
  proof -
    have "set (map uuid (map snd ys)) = set (map fst ys)" by (simp only: uuid_keys[OF uy])
    then have "uuid ` set (map snd ys) = fst ` set ys" by (simp only: set_map)
    with ny show ?thesis by simp
  qed
  have dy: "AList.delete k ys = ys" using ny by (rule AList.delete_id)
  have dz: "AList.delete k zs = zs" using nz by (rule AList.delete_id)
  have "AList.delete k (bullets st) = AList.delete k ys @ AList.delete k zs"
    by (simp add: xs AList.delete_eq)
  then have del: "AList.delete k (bullets st) = ys @ zs"
    by (simp only: dy dz)
  let ?f = "\<lambda>s b. stepBullet delta b s"
  have "stepBullets delta st = foldl ?f (?f (foldl ?f st (map snd ys)) b) (map snd zs)"
    by (simp add: stepBullets_def xs)
  also have "?f (foldl ?f st (map snd ys)) b = removeBullet k (foldl ?f st (map snd ys))"
    using assms(3) ub by (simp add: stepBullet_expired removeBullet_def)
  also have "\<dots> = foldl ?f (removeBullet k st) (map snd ys)"
    by (rule foldl_stepBullet_removeBullet[OF ky, symmetric])
  also have "foldl ?f (foldl ?f (removeBullet k st) (map snd ys)) (map snd zs)
      = stepBullets delta (removeBullet k st)"
    by (simp add: stepBullets_def removeBullet_fields del)
  finally show ?thesis .
qed

text \<open>
  Claim C3, as amended. Let the registry and the scene agree before the loop over the
  bullets. A bullet of the registry is in the registry after the loop exactly when its time
  to live was not negative when the frame started and no visible target is within distance
  1 of the place the frame moves it to. It is then stored moved and aged by \<open>delta\<close>, so its
  time to live may be negative between two frames; the next frame removes it. A bullet is
  in the scene after the loop exactly when it is in the registry, no bullet enters the
  registry in the loop, and the registry and the scene agree again: after the loop, after
  the whole frame (the ticker touches neither), and after every other event of a run.
\<close>

theorem registry_after_the_loop:
  assumes "registryOk st" and "(k, b) \<in> set (bullets st)"
  shows "(k \<in> fst ` set (bullets (stepBullets delta st)) \<longleftrightarrow> survives delta st b)
       \<and> (survives delta st b \<longrightarrow>
            map_of (bullets (stepBullets delta st)) k = Some (advance delta b))
       \<and> (BulletChild k \<in> set (scene (stepBullets delta st))
            \<longleftrightarrow> k \<in> fst ` set (bullets (stepBullets delta st)))
       \<and> fst ` set (bullets (stepBullets delta st)) \<subseteq> fst ` set (bullets st)
       \<and> registryOk (stepBullets delta st)
       \<and> (\<exists>s. handleController delta' env (updateLiquid delta' env st) = Inr s
              \<and> registryOk s
              \<and> bullets (frame delta' time env st) = bullets (stepBullets delta' s)
              \<and> scene (frame delta' time env st) = scene (stepBullets delta' s))
       \<and> registryOk (step ev st)
       \<and> registryOk (run evs (setupScene cameraPos initialWorld))"
proof -
  obtain s where s: "handleController delta' env (updateLiquid delta' env st) = Inr s"
    and f: "frame delta' time env st = gsapTick (tickerEvents env) (stepBullets delta' s)"
    using frame_unfold by blast
  have "registryOk (updateLiquid delta' env st)"
    using assms(1) by (simp add: registryOk_def updateLiquid_def Let_def)
  then have "registryOk s" using s by (rule registryOk_handleController)
  with s f have "\<exists>s. handleController delta' env (updateLiquid delta' env st) = Inr s
              \<and> registryOk s
              \<and> bullets (frame delta' time env st) = bullets (stepBullets delta' s)
              \<and> scene (frame delta' time env st) = scene (stepBullets delta' s)"
    by (auto simp: gsapTick_registry)
  with loop_registry[OF assms, of delta] registryOk_step[OF assms(1), of ev]
    registryOk_run[OF registryOk_startWorld, of evs cameraPos]
  show ?thesis by blast
qed

theorem registry_after_the_loop_witness:
  "registryOk rangeWorld
   \<and> (''b2'', bulletAt ''b2'' (- 5 / 2) 1) \<in> set (bullets rangeWorld)
   \<and> survives (1 / 8) rangeWorld (bulletAt ''b2'' (- 5 / 2) 1)
   \<and> ''b2'' \<in> fst ` set (bullets (stepBullets (1 / 8) rangeWorld))
   \<and> map_of (bullets (stepBullets (1 / 8) rangeWorld)) ''b2''
       = Some (bulletAt ''b2'' (- 15 / 4) (7 / 8))
   \<and> BulletChild ''b2'' \<in> set (scene (stepBullets (1 / 8) rangeWorld))
   \<and> registryOk (stepBullets (1 / 8) rangeWorld)
   \<and> registryOk (step (Frame (1 / 8) 0 idleEnv) rangeWorld)
   \<and> registryOk (run [StationLoaded, Frame (1 / 8) 0 idleEnv] (setupScene (Vector3 0 0 0) initialWorld))"
proof -
  have pre: "registryOk rangeWorld"
    "(''b2'', bulletAt ''b2'' (- 5 / 2) 1) \<in> set (bullets rangeWorld)"
    by (simp_all add: registryOk_def world_eval start_eval)
  have vals: "survives (1 / 8) rangeWorld (bulletAt ''b2'' (- 5 / 2) 1)"
    "advance (1 / 8) (bulletAt ''b2'' (- 5 / 2) 1) = bulletAt ''b2'' (- 15 / 4) (7 / 8)"
    by (simp_all add: survives_def bullet_eval world_eval start_eval)
  from registry_after_the_loop[OF pre, of "1 / 8" "1 / 8" idleEnv 0 "Frame (1 / 8) 0 idleEnv"
         "[StationLoaded, Frame (1 / 8) 0 idleEnv]" "Vector3 0 0 0"]
    pre vals
  show ?thesis by simp
qed

text \<open>
  Claim C3 as stated fails. A bullet with a sixteenth of a second to live and no target near
  is still in the registry and in the scene after a frame of an eighth of a second, with a
  time to live of minus a sixteenth.
\<close>

theorem bullet_with_negative_time_to_live_is_registered:
  "onFrame (1 / 8) 0 idleEnv lateWorld = Inr (frame (1 / 8) 0 idleEnv lateWorld)
   \<and> bullets (frame (1 / 8) 0 idleEnv lateWorld) = [(''b1'', bulletAt ''b1'' (- 9 / 4) (- 1 / 16))]
   \<and> scene (frame (1 / 8) 0 idleEnv lateWorld) = [ScoreText, BulletChild ''b1'']
   \<and> timeToLive (bulletAt ''b1'' (- 9 / 4) (- 1 / 16)) < 0
   \<and> tweens (frame (1 / 8) 0 idleEnv lateWorld) = []"
  by (simp add: onFrame_frame, simp add: frame_eval bullet_eval world_eval lateWorld_def start_eval)

text \<open>
  Claim C4. A bullet whose time to live is negative when the loop reaches it is removed from
  the registry and the scene by the first statement of the loop body, in whatever state:
  nothing is written to its position or its time to live, and no target is tested against
  it. For a bullet of the registry that is negative when the frame starts, the loop
  therefore ends in the state it would end in had the bullet been removed before the loop:
  where the bullet is, how fast it flies and which targets are near it make no difference
  to the frame.
\<close>

theorem expired_bullet_is_removed_unmoved_and_untested:
  assumes "registryOk st" and "(k, b) \<in> set (bullets st)" and "timeToLive b < 0"
  shows "stepBullet delta b st' = removeBullet (uuid b) st'
       \<and> uuid b = k
       \<and> stepBullets delta st = stepBullets delta (removeBullet k st)
       \<and> k \<notin> fst ` set (bullets (stepBullets delta st))
       \<and> BulletChild k \<notin> set (scene (stepBullets delta st))"
proof -
  have "\<not> survives delta st b" using assms(3) by (simp add: survives_def)
  with loop_registry[OF assms(1,2), of delta]
  have "k \<notin> fst ` set (bullets (stepBullets delta st))"
    "BulletChild k \<notin> set (scene (stepBullets delta st))" by simp_all
  moreover have "stepBullet delta b st' = removeBullet (uuid b) st'"
    using assms(3) by (simp add: stepBullet_expired removeBullet_def)
  ultimately show ?thesis
    using registry_entry(1)[OF assms(1,2)] expired_bullet_skipped[OF assms, of delta] by simp
qed

theorem expired_bullet_is_removed_unmoved_and_untested_witness:
  "registryOk staleWorld
   \<and> (''b1'', bulletAt ''b1'' (- 5) (- 1 / 100)) \<in> set (bullets staleWorld)
   \<and> timeToLive (bulletAt ''b1'' (- 5) (- 1 / 100)) < 0
   \<and> inRange staleWorld (bulletAt ''b1'' (- 5) (- 1 / 100)) 0
   \<and> visible (targets staleWorld ! 0)
   \<and> stepBullet (1 / 8) (bulletAt ''b1'' (- 5) (- 1 / 100)) staleWorld = removeBullet ''b1'' staleWorld
   \<and> stepBullets (1 / 8) staleWorld = stepBullets (1 / 8) (removeBullet ''b1'' staleWorld)
   \<and> ''b1'' \<notin> fst ` set (bullets (stepBullets (1 / 8) staleWorld))
   \<and> BulletChild ''b1'' \<notin> set (scene (stepBullets (1 / 8) staleWorld))
   \<and> score (stepBullets (1 / 8) staleWorld) = 0
   \<and> tweens (stepBullets (1 / 8) staleWorld) = []"
proof -
  have pre: "registryOk staleWorld"
    "(''b1'', bulletAt ''b1'' (- 5) (- 1 / 100)) \<in> set (bullets staleWorld)"
    "timeToLive (bulletAt ''b1'' (- 5) (- 1 / 100)) < 0"
    by (simp_all add: registryOk_def world_eval start_eval)
  have vals: "inRange staleWorld (bulletAt ''b1'' (- 5) (- 1 / 100)) 0"
    "visible (targets staleWorld ! 0)"
    "uuid (bulletAt ''b1'' (- 5) (- 1 / 100)) = ''b1''"
    "score (stepBullets (1 / 8) staleWorld) = 0"
    "tweens (stepBullets (1 / 8) staleWorld) = []"
    by (simp_all add: stepBullets_def bullet_eval world_eval start_eval)
  from expired_bullet_is_removed_unmoved_and_untested
         [OF pre, of "1 / 8" staleWorld, unfolded vals(3)] pre vals
  show ?thesis by blast
qed

section \<open>The score\<close>

lemma score_stepBullet:
  "score (stepBullet delta b st) = score st + 10 * int (length (bulletHits delta st b))"
  "tweens (stepBullet delta b st) = tweens st @ map (\<lambda>i. (i, Shrink)) (bulletHits delta st b)"
  by (cases "timeToLive b < 0"; simp add: bulletHits_def stepBullet_expired stepBullet_live_fields)+

lemma bulletHits_cong: "targets st' = targets st \<Longrightarrow> bulletHits delta st' = bulletHits delta st"
  using hits_cong[of st' st] by (auto simp: bulletHits_def)

lemma foldl_stepBullet_score:
  "score (foldl (\<lambda>s b. stepBullet delta b s) st bs)
     = score st + 10 * int (length (concat (map (bulletHits delta st) bs)))
   \<and> tweens (foldl (\<lambda>s b. stepBullet delta b s) st bs)
     = tweens st @ map (\<lambda>i. (i, Shrink)) (concat (map (bulletHits delta st) bs))"
proof (induction bs arbitrary: st)
  case Nil
  show ?case by simp
next
  case (Cons a bs)
  have h: "bulletHits delta (stepBullet delta a st) = bulletHits delta st"
    by (rule bulletHits_cong) (simp add: stepBullet_targets)
  from Cons[of "stepBullet delta a st"] show ?case
    by (simp add: h score_stepBullet algebra_simps)
qed

lemma stepBullets_score:
  "score (stepBullets delta st) = score st + 10 * int (length (frameHits delta st))"
  "tweens (stepBullets delta st) = tweens st @ map (\<lambda>i. (i, Shrink)) (frameHits delta st)"
  using foldl_stepBullet_score[of delta st "map snd (bullets st)"]
  by (simp_all add: stepBullets_def frameHits_def)

lemma onTrigger_score:
  assumes "onTrigger c st = Inr s"
  shows "score s = score st" "targets s = targets st"
  using assms
  by (auto simp: onTrigger_def hapticPulse_def spawnBullet_def Let_def split: option.splits if_splits)

lemma handleController_score:
  assumes "handleController delta env st = Inr s"
  shows "score s = score st" "targets s = targets st"
  using assms
  by (auto simp: handleController_def updateBlaster_def attachBlaster_def Let_def
      dest: onTrigger_score split: option.splits if_splits)

lemma frame_score:
  "\<exists>s. handleController delta env (updateLiquid delta env st) = Inr s
       \<and> score s = score st
       \<and> score (frame delta time env st) = score s + 10 * int (length (frameHits delta s))"
proof -
  obtain s where s: "handleController delta env (updateLiquid delta env st) = Inr s"
    and f: "frame delta time env st = gsapTick (tickerEvents env) (stepBullets delta s)"
    using frame_unfold by blast
  have "score s = score st"
    using handleController_score(1)[OF s] by (simp add: updateLiquid_def Let_def)
  with s f show ?thesis by (auto simp: gsapTick_registry stepBullets_score)
qed

lemma pushTarget_score: "score (pushTarget model i draw st) = score st"
  by (cases draw) (simp add: pushTarget_def Let_def)

lemma other_events_score:
  "score (stationLoaded st) = score st"
  "score (targetsLoaded model draws st) = score st"
  "score (onTimeout i r1 r2 st) = score st"
  by (simp_all add: stationLoaded_def targetsLoaded_def pushTarget_score onTimeout_def Let_def)

lemma step_score:
  "score st \<le> score (step ev st) \<and> 10 dvd (score (step ev st) - score st)"
proof (cases ev)
  case (Frame delta time env)
  from frame_score[of delta env st time] obtain s
    where "score (frame delta time env st) = score st + 10 * int (length (frameHits delta s))"
    by auto
  with Frame show ?thesis by simp
qed (simp_all add: other_events_score)

lemma run_score:
  "score st \<le> score (run evs st) \<and> 10 dvd (score (run evs st) - score st)"
  unfolding run_def
proof (induction evs arbitrary: st)
  case Nil
  show ?case by simp
next
  case (Cons ev evs)
  from Cons[of "step ev st"] step_score[of st ev]
  have "score st \<le> score (foldl (\<lambda>s ev. step ev s) (step ev st) evs)" by simp
  moreover have "10 dvd (score (foldl (\<lambda>s ev. step ev s) (step ev st) evs) - score (step ev st))
                   + (score (step ev st) - score st)"
    using Cons[of "step ev st"] step_score[of st ev] by (intro dvd_add) simp_all
  ultimately show ?case by (simp add: algebra_simps)
qed

lemma run_append: "run (evs @ evs') st = run evs' (run evs st)"
  by (simp add: run_def)

text \<open>
  Claim C9. The score is 0 in the initial state and after the set up. The loop over the
  bullets adds 10 for every hit and starts one shrink tween for every hit; nothing else in a
  frame and no loader callback or timer writes the score. So every event of a run leaves
  the score where it was or raises it by a multiple of 10, the score of every state a run
  reaches from the set up is a multiple of 10 and not negative, and it never goes down.
\<close>

theorem score_counts_hits_in_tens:
  "score initialWorld = 0
   \<and> score (setupScene cameraPos initialWorld) = 0
   \<and> score (stepBullets delta st) = score st + 10 * int (length (frameHits delta st))
   \<and> tweens (stepBullets delta st) = tweens st @ map (\<lambda>i. (i, Shrink)) (frameHits delta st)
   \<and> (\<exists>s. handleController delta env (updateLiquid delta env st) = Inr s
          \<and> score s = score st
          \<and> score (frame delta time env st) = score s + 10 * int (length (frameHits delta s)))
   \<and> score (stationLoaded st) = score st
   \<and> score (targetsLoaded model draws st) = score st
   \<and> score (onTimeout i r1 r2 st) = score st
   \<and> score st \<le> score (step ev st)
   \<and> 10 dvd (score (step ev st) - score st)
   \<and> 0 \<le> score (run evs (setupScene cameraPos initialWorld))
   \<and> 10 dvd score (run evs (setupScene cameraPos initialWorld))
   \<and> score (run evs st) \<le> score (run (evs @ evs') st)"
proof -
  have start: "score initialWorld = 0" "score (setupScene cameraPos initialWorld) = 0"
    by (simp_all add: initialWorld_def setupScene_def updateScoreDisplay_def)
  have reach: "0 \<le> score (run evs (setupScene cameraPos initialWorld))"
    "10 dvd score (run evs (setupScene cameraPos initialWorld))"
    using run_score[of "setupScene cameraPos initialWorld" evs] start(2) by simp_all
  have mono: "score (run evs st) \<le> score (run (evs @ evs') st)"
    using run_score[of "run evs st" evs'] by (simp add: run_append)
  from start reach mono stepBullets_score[of delta st] frame_score[of delta env st time]
    step_score[of st ev]
  show ?thesis by (simp add: other_events_score)
qed

section \<open>Which targets can be hit\<close>

lemma tickerStep_visible:
  assumes "i < length (targets st)" "visible (targets st ! i)" "ev \<noteq> TweenComplete i Shrink"
  shows "length (targets (tickerStep ev st)) = length (targets st)
       \<and> visible (targets (tickerStep ev st) ! i)"
proof (cases ev)
  case (TweenProgress j v)
  with assms show ?thesis by (simp add: nth_list_update)
next
  case (TweenComplete j k)
  with assms show ?thesis
    by (cases k) (auto simp: Let_def onComplete_def nth_list_update)
qed

lemma gsapTick_visible:
  assumes "i < length (targets st)" "visible (targets st ! i)" "TweenComplete i Shrink \<notin> set evs"
  shows "length (targets (gsapTick evs st)) = length (targets st)
       \<and> visible (targets (gsapTick evs st) ! i)"
  using assms unfolding gsapTick_def
proof (induction evs arbitrary: st)
  case Nil
  then show ?case by simp
next
  case (Cons ev evs)
  then have ne: "ev \<noteq> TweenComplete i Shrink" and rest: "TweenComplete i Shrink \<notin> set evs" by auto
  from tickerStep_visible[OF Cons.prems(1,2) ne]
  have l: "length (targets (tickerStep ev st)) = length (targets st)"
    and v: "visible (targets (tickerStep ev st) ! i)" by simp_all
  from Cons.IH[of "tickerStep ev st"] l v rest Cons.prems(1) show ?case by simp
qed

lemma stepBullets_targets: "targets (stepBullets delta st) = targets st"
  unfolding stepBullets_def by (rule foldl_stepBullet_targets)

lemma frame_targets:
  "\<exists>s. targets s = targets st \<and> frame delta time env st = gsapTick (tickerEvents env) s"
proof -
  obtain s where s: "handleController delta env (updateLiquid delta env st) = Inr s"
    and f: "frame delta time env st = gsapTick (tickerEvents env) (stepBullets delta s)"
    using frame_unfold by blast
  have "targets s = targets st"
    using handleController_score(2)[OF s] by (simp add: updateLiquid_def Let_def)
  then have "targets (stepBullets delta s) = targets st" by (simp add: stepBullets_targets)
  with f show ?thesis by blast
qed

lemma pushTarget_visible:
  assumes "i < length (targets st)" "visible (targets st ! i)"
  shows "i < length (targets (pushTarget model j draw st))
       \<and> visible (targets (pushTarget model j draw st) ! i)"
  using assms by (cases draw) (simp add: pushTarget_def Let_def nth_append)

lemma step_visible:
  assumes "i < length (targets st)" "visible (targets st ! i)" "\<not> completesShrink i ev"
  shows "i < length (targets (step ev st)) \<and> visible (targets (step ev st) ! i)"
proof (cases ev)
  case (Frame delta time env)
  from frame_targets[of st delta time env] obtain s where s: "targets s = targets st"
    and f: "frame delta time env st = gsapTick (tickerEvents env) s" by blast
  from assms(3) Frame have "TweenComplete i Shrink \<notin> set (tickerEvents env)" by simp
  from gsapTick_visible[of i s, OF _ _ this] assms(1,2) s f Frame show ?thesis by simp
next
  case StationLoaded
  with assms show ?thesis by (simp add: stationLoaded_def)
next
  case (TargetsLoaded model draws)
  with assms show ?thesis by (simp add: targetsLoaded_def pushTarget_visible)
next
  case (Timeout j r1 r2)
  with assms show ?thesis by (auto simp: onTimeout_def Let_def nth_list_update)
qed

lemma shrink_complete_hides:
  assumes "(i, Shrink) \<in> set (tweens st)" "i < length (targets st)"
  shows "\<not> visible (targets (tickerStep (TweenComplete i Shrink) st) ! i)"
  using assms by (simp add: Let_def onComplete_def)

text \<open>
  Claim C7. The targets that a live bullet hits in a frame are exactly the targets whose
  \<^verbatim>\<open>visible\<close> flag is set when the bullet is processed and that are within distance 1 of
  the advanced bullet: a hidden target is never hit. The loop over the bullets changes no
  target, so a target that has just been hit is as visible as before, and no event of a run
  hides a visible target except the ticker completing a shrink tween of that target, which
  does hide it. A target whose shrink tween is running is therefore hit again by every
  bullet that comes within distance 1 of it.
\<close>

theorem visible_targets_are_the_ones_tested:
  assumes "0 \<le> timeToLive b"
  shows "tweens (stepBullet delta b st)
           = tweens st @ map (\<lambda>i. (i, Shrink)) (hits st (advance delta b))
       \<and> (i \<in> set (hits st (advance delta b)) \<longleftrightarrow>
            i < length (targets st) \<and> visible (targets st ! i)
            \<and> distanceTo (position (targets st ! i)) (position (advance delta b)) < 1)
       \<and> targets (stepBullets delta st) = targets st
       \<and> (i < length (targets st) \<and> visible (targets st ! i) \<and> \<not> completesShrink i ev \<longrightarrow>
            i < length (targets (step ev st)) \<and> visible (targets (step ev st) ! i))
       \<and> ((i, Shrink) \<in> set (tweens st) \<and> i < length (targets st) \<longrightarrow>
            \<not> visible (targets (tickerStep (TweenComplete i Shrink) st) ! i))"
  using stepBullet_live_fields(2)[OF assms, of delta st] set_hits[of st "advance delta b"]
    stepBullets_targets[of delta st] step_visible[of i st ev] shrink_complete_hides[of i st]
  by (simp add: inRange_def)

theorem visible_targets_are_the_ones_tested_witness:
  "0 \<le> timeToLive (bulletAt ''b2'' (- 15 / 4) (7 / 8))
   \<and> tweens (frame (1 / 8) 0 idleEnv rangeWorld) = tweens shrinkingWorld
   \<and> bullets (frame (1 / 8) 0 idleEnv rangeWorld) = bullets shrinkingWorld
   \<and> targets (frame (1 / 8) 0 idleEnv rangeWorld) = targets shrinkingWorld
   \<and> (0, Shrink) \<in> set (tweens shrinkingWorld)
   \<and> 0 < length (targets shrinkingWorld) \<and> visible (targets shrinkingWorld ! 0)
   \<and> \<not> completesShrink 0 (Frame (1 / 8) 0 shrinkingEnv)
   \<and> hits shrinkingWorld (advance (1 / 8) (bulletAt ''b2'' (- 15 / 4) (7 / 8))) = [0]
   \<and> tweens (stepBullet (1 / 8) (bulletAt ''b2'' (- 15 / 4) (7 / 8)) shrinkingWorld)
       = [(0, Shrink), (0, Shrink)]
   \<and> visible (targets (step (Frame (1 / 8) 0 shrinkingEnv) shrinkingWorld) ! 0)
   \<and> score (frame (1 / 8) 0 shrinkingEnv shrinkingWorld) = 20
   \<and> \<not> visible (targets (tickerStep (TweenComplete 0 Shrink) shrinkingWorld) ! 0)
   \<and> hits (tickerStep (TweenComplete 0 Shrink) shrinkingWorld)
        (advance (1 / 8) (bulletAt ''b2'' (- 15 / 4) (7 / 8))) = []"
proof -
  have pre: "0 \<le> timeToLive (bulletAt ''b2'' (- 15 / 4) (7 / 8))"
    by (simp add: bulletAt_def)
  have first: "tweens (frame (1 / 8) 0 idleEnv rangeWorld) = tweens shrinkingWorld"
    "bullets (frame (1 / 8) 0 idleEnv rangeWorld) = bullets shrinkingWorld"
    "targets (frame (1 / 8) 0 idleEnv rangeWorld) = targets shrinkingWorld"
    by (simp_all add: frame_eval bullet_eval world_eval start_eval)
  have vals: "(0, Shrink) \<in> set (tweens shrinkingWorld)"
    "0 < length (targets shrinkingWorld)" "visible (targets shrinkingWorld ! 0)"
    "\<not> completesShrink 0 (Frame (1 / 8) 0 shrinkingEnv)"
    "hits shrinkingWorld (advance (1 / 8) (bulletAt ''b2'' (- 15 / 4) (7 / 8))) = [0]"
    "tweens shrinkingWorld = [(0, Shrink)]"
    "score (frame (1 / 8) 0 shrinkingEnv shrinkingWorld) = 20"
    "hits (tickerStep (TweenComplete 0 Shrink) shrinkingWorld)
        (advance (1 / 8) (bulletAt ''b2'' (- 15 / 4) (7 / 8))) = []"
    by (simp_all add: frame_eval bullet_eval world_eval start_eval onComplete_def)
  from visible_targets_are_the_ones_tested
         [OF pre, of "1 / 8" shrinkingWorld 0 "Frame (1 / 8) 0 shrinkingEnv"] pre first vals
  show ?thesis by simp
qed

section \<open>The heights of the targets\<close>

lemma map_update_same:
  assumes "f y = f (xs ! k)"
  shows "map f (xs[k := y]) = map f xs"
proof (cases "k < length xs")
  case True
  have "map f (xs[k := y]) = (map f xs)[k := f y]" by (rule map_update)
  also have "\<dots> = (map f xs)[k := (map f xs) ! k]" using assms True by simp
  also have "\<dots> = map f xs" by (rule list_update_id)
  finally show ?thesis .
next
  case False
  then have "length xs \<le> k" by simp
  then have "xs[k := y] = xs" by (rule list_update_beyond)
  then show ?thesis by (simp only:)
qed

lemma tickerStep_heights: "heights (tickerStep ev st) = heights st"
proof (cases ev)
  case (TweenProgress j v)
  then show ?thesis by (simp add: heights_def map_update_same)
next
  case (TweenComplete j k)
  then show ?thesis
    by (cases k) (simp_all add: heights_def Let_def onComplete_def map_update_same)
qed

lemma gsapTick_heights: "heights (gsapTick evs st) = heights st"
  unfolding gsapTick_def by (rule foldl_preserves) (simp add: tickerStep_heights)

lemma frame_heights: "heights (frame delta time env st) = heights st"
proof -
  from frame_targets[of st delta time env] obtain s where s: "targets s = targets st"
    and f: "frame delta time env st = gsapTick (tickerEvents env) s" by blast
  have "heights s = heights st" using s by (simp add: heights_def)
  then show ?thesis by (simp add: f gsapTick_heights)
qed

lemma onTimeout_heights: "heights (onTimeout i r1 r2 st) = heights st"
  by (simp add: onTimeout_def Let_def heights_def map_update_same)

lemma targetsLoaded_heights:
  assumes "targets st = []"
  shows "heights (targetsLoaded model draws st) = [1, 3, 5]"
  using assms
  by (simp add: targetsLoaded_def pushTarget_def heights_def Let_def split: prod.splits)

text \<open>
  A further property (X1): the heights of the targets never change. The loader puts the three
  targets at the heights 1, 3 and 5; the ticker writes scale and visibility only, the timer
  callback writes the x and z coordinates only, and the frame writes no target at all. So
  once the loader has run on an empty list of targets, the targets are pairwise at least 2
  apart in height in every later state, and no bullet can be within distance 1 of two of
  them.
\<close>

theorem targets_stay_apart:
  "(targets st = [] \<longrightarrow> targetsApart (targetsLoaded model draws st))
   \<and> (targetsApart st \<longrightarrow>
        targetsApart (frame delta time env st)
        \<and> targetsApart (onTimeout i r1 r2 st)
        \<and> targetsApart (stationLoaded st))"
proof -
  have a: "targetsApart s = apart (heights s)" for s
    by (simp add: targetsApart_def heights_def)
  have "heights (stationLoaded st) = heights st" by (simp add: heights_def stationLoaded_def)
  then show ?thesis
    by (auto simp: a frame_heights onTimeout_heights targetsLoaded_heights)
qed

theorem targets_stay_apart_witness:
  "targets startWorld = []
   \<and> targetsApart (targetsLoaded (targetAt 0 0 0) (\<lambda>i. (''t'', 1 / 2, 1 / 2)) startWorld)
   \<and> targetsApart rangeWorld
   \<and> targetsApart (frame (1 / 8) 0 idleEnv rangeWorld)
   \<and> targetsApart (onTimeout 0 (1 / 2) (1 / 2) rangeWorld)
   \<and> targetsApart (stationLoaded rangeWorld)"
proof -
  have pre: "targets startWorld = []" "targetsApart rangeWorld"
    by (simp_all add: targetsApart_def world_eval start_eval)
  from targets_stay_apart[of startWorld "targetAt 0 0 0" "\<lambda>i. (''t'', 1 / 2, 1 / 2)"]
    targets_stay_apart[of rangeWorld _ _ "1 / 8" 0 idleEnv 0 "1 / 2" "1 / 2"] pre
  show ?thesis by blast
qed

section \<open>One collision for each bullet\<close>
















end
